theory Spec2Isabelle
  imports
    Main
    "HOL-Library.Sublist"
    "HOL-Library.Multiset"
    "HOL-Library.Product_Lexorder"
    "HOL-Library.List_Lexorder"
    "HOL-Library.AList"
begin

text \<open>
  A model of \<open>reposwarm_cli.py\<close>: the analysis of one repository
  (\<open>SimpleInvestigator.analyze_repository\<close> with \<open>_build_file_tree\<close>, \<open>_read_key_files\<close>
  and \<open>_call_claude_api\<close>) and the batch driver \<open>analyze_all_repositories\<close>. Exceptions
  are values, the file system and the two external programs are an explicit state of
  the world, and what the program prints is left out.
\<close>

section \<open>Python strings and paths\<close>

text \<open>
  A Python \<open>str\<close> is a sequence of Unicode code points: \<open>len\<close>, slicing, \<open>split\<close>,
  \<open>replace\<close> and comparison all work code point by code point. It is modelled as a list of
  code points (\<open>nat\<close>), ordered lexicographically as Python orders strings. \<open>py\<close> embeds an
  ASCII literal.
\<close>

type_synonym pystr = "nat list"

definition py :: "string \<Rightarrow> pystr" where
  "py s = map of_char s"

text \<open>\<open>s.split(sep)\<close> for a one-character separator: never the empty list.\<close>

fun split :: "nat \<Rightarrow> pystr \<Rightarrow> pystr list" where
  "split sep [] = [[]]"
| "split sep (c # cs) =
     (if c = sep then [] # split sep cs
      else (case split sep cs of [] \<Rightarrow> [[c]] | f # fs \<Rightarrow> (c # f) # fs))"

text \<open>
  \<open>s.replace(old, new)\<close>: the occurrences of \<open>old\<close> are found scanning from the left, each
  search resuming after the occurrence just replaced. (For the empty \<open>old\<close> Python puts
  \<open>new\<close> before every character and at the end.)
\<close>

fun replace :: "pystr \<Rightarrow> pystr \<Rightarrow> pystr \<Rightarrow> pystr" where
  "replace old new [] = (if old = [] then new else [])"
| "replace old new (c # cs) =
     (if old = [] then new @ c # replace old new cs
      else if prefix old (c # cs) then new @ replace old new (drop (length old - 1) cs)
      else c # replace old new cs)"

text \<open>\<open>sep.join(parts)\<close>.\<close>

fun join :: "pystr \<Rightarrow> pystr list \<Rightarrow> pystr" where
  "join sep [] = []"
| "join sep [x] = x"
| "join sep (x # y # ys) = x @ sep @ join sep (y # ys)"

text \<open>
  A \<open>pathlib.Path\<close> is modelled by its components; \<open>p / name\<close> appends one component.
  Every name joined to a path by the program is a single component.
\<close>

type_synonym path = "pystr list"

definition slash :: nat where
  "slash = of_char CHR ''/''"

section \<open>Names derived from the repository URL\<close>

text \<open>
  Lines 43, 44 and 53 of \<open>analyze_repository\<close>:
  \<^verbatim>\<open>repo_name = repo_url.split('/')[-1].replace('.git', '')\<close>,
  \<^verbatim>\<open>output_file = output_dir / f"{repo_name}.arch.md"\<close>,
  \<^verbatim>\<open>clone_dir = output_dir / f"clone_{repo_name}"\<close>.
  The index \<open>[-1]\<close> is the last element; \<open>split\<close> never returns the empty list.
\<close>

definition repo_name_of :: "pystr \<Rightarrow> pystr" where
  "repo_name_of repo_url = replace (py ''.git'') [] (last (split slash repo_url))"

definition output_file_of :: "path \<Rightarrow> pystr \<Rightarrow> path" where
  "output_file_of output_dir repo_url = output_dir @ [repo_name_of repo_url @ py ''.arch.md'']"

definition clone_dir_of :: "path \<Rightarrow> pystr \<Rightarrow> path" where
  "clone_dir_of output_dir repo_url = output_dir @ [py ''clone_'' @ repo_name_of repo_url]"

section \<open>Exceptions and JSON values\<close>

text \<open>
  An exception is its class and \<open>str(e)\<close>. Every class below derives from \<open>Exception\<close>, so
  \<open>except Exception\<close> catches each of them; \<open>PlainException\<close> is \<open>Exception\<close> itself, which
  the program raises. Interrupts (\<open>KeyboardInterrupt\<close>, task cancellation) are outside the model.
\<close>

datatype exn_class =
    PlainException | PermissionError | OSError | KeyError | IndexError | TypeError
  | AttributeError | JSONDecodeError | TimeoutExpired

datatype exn = Exn (exn_class: exn_class) (message: pystr)

text \<open>What \<open>json.load\<close> returns; a dict keeps its items in order.\<close>

datatype json =
    JNull | JBool bool | JInt int | JFloat int int | JString pystr
  | JArray "json list" | JObject "(pystr \<times> json) list"

fun type_name :: "json \<Rightarrow> pystr" where
  "type_name JNull = py ''NoneType''"
| "type_name (JBool b) = py ''bool''"
| "type_name (JInt n) = py ''int''"
| "type_name (JFloat m e) = py ''float''"
| "type_name (JString s) = py ''str''"
| "type_name (JArray xs) = py ''list''"
| "type_name (JObject kv) = py ''dict''"

text \<open>
  The operations the program applies to loaded JSON, with the exception each raises on a
  value of the wrong type (messages as CPython 3.11 words them).
\<close>

text \<open>\<open>key in x\<close> for a string \<open>key\<close>.\<close>

fun py_contains :: "pystr \<Rightarrow> json \<Rightarrow> exn + bool" where
  "py_contains key (JObject kv) = Inr (key \<in> fst ` set kv)"
| "py_contains key (JArray xs) = Inr (JString key \<in> set xs)"
| "py_contains key (JString s) = Inr (sublist key s)"
| "py_contains key x =
     Inl (Exn TypeError (py ''argument of type '' @ [39] @ type_name x @ [39] @ py '' is not iterable''))"

text \<open>\<open>x[key]\<close> for a string \<open>key\<close>; \<open>str(KeyError(key))\<close> is the key's \<open>repr\<close>.\<close>

fun py_getitem :: "json \<Rightarrow> pystr \<Rightarrow> exn + json" where
  "py_getitem (JObject kv) key =
     (case map_of kv key of
        Some v \<Rightarrow> Inr v
      | None \<Rightarrow> Inl (Exn KeyError ([39] @ key @ [39])))"
| "py_getitem (JArray xs) key =
     Inl (Exn TypeError (py ''list indices must be integers or slices, not str''))"
| "py_getitem (JString s) key =
     Inl (Exn TypeError (py ''string indices must be integers, not '' @ [39] @ py ''str'' @ [39]))"
| "py_getitem x key =
     Inl (Exn TypeError ([39] @ type_name x @ [39] @ py '' object is not subscriptable''))"

text \<open>\<open>x[0]\<close>; the keys of a loaded dict are strings, so \<open>0\<close> is none of them.\<close>

fun py_first :: "json \<Rightarrow> exn + json" where
  "py_first (JArray xs) =
     (case xs of [] \<Rightarrow> Inl (Exn IndexError (py ''list index out of range'')) | x # _ \<Rightarrow> Inr x)"
| "py_first (JString s) =
     (case s of [] \<Rightarrow> Inl (Exn IndexError (py ''string index out of range''))
      | c # _ \<Rightarrow> Inr (JString [c]))"
| "py_first (JObject kv) = Inl (Exn KeyError (py ''0''))"
| "py_first x =
     Inl (Exn TypeError ([39] @ type_name x @ [39] @ py '' object is not subscriptable''))"

text \<open>\<open>len(x)\<close>.\<close>

fun py_len :: "json \<Rightarrow> exn + nat" where
  "py_len (JObject kv) = Inr (length kv)"
| "py_len (JArray xs) = Inr (length xs)"
| "py_len (JString s) = Inr (length s)"
| "py_len x =
     Inl (Exn TypeError (py ''object of type '' @ [39] @ type_name x @ [39] @ py '' has no len()''))"

text \<open>\<open>x.get(key, dflt)\<close>: a method of dicts only.\<close>

fun py_get :: "json \<Rightarrow> pystr \<Rightarrow> json \<Rightarrow> exn + json" where
  "py_get (JObject kv) key dflt =
     Inr (case map_of kv key of Some v \<Rightarrow> v | None \<Rightarrow> dflt)"
| "py_get x key dflt =
     Inl (Exn AttributeError
       ([39] @ type_name x @ [39] @ py '' object has no attribute '' @ [39] @ py ''get'' @ [39]))"

text \<open>The truth value of \<open>x\<close> in \<open>if x:\<close>.\<close>

fun py_truthy :: "json \<Rightarrow> bool" where
  "py_truthy JNull = False"
| "py_truthy (JBool b) = b"
| "py_truthy (JInt n) = (n \<noteq> 0)"
| "py_truthy (JFloat m e) = (m \<noteq> 0)"
| "py_truthy (JString s) = (s \<noteq> [])"
| "py_truthy (JArray xs) = (xs \<noteq> [])"
| "py_truthy (JObject kv) = (kv \<noteq> [])"

text \<open>\<open>x[:5]\<close>, as the list of elements a \<open>for\<close> loop then visits.\<close>

fun py_first5 :: "json \<Rightarrow> exn + json list" where
  "py_first5 (JArray xs) = Inr (take 5 xs)"
| "py_first5 (JString s) = Inr (map (\<lambda>c. JString [c]) (take 5 s))"
| "py_first5 (JObject kv) =
     Inl (Exn TypeError (py ''unhashable type: '' @ [39] @ py ''slice'' @ [39]))"
| "py_first5 x =
     Inl (Exn TypeError ([39] @ type_name x @ [39] @ py '' object is not subscriptable''))"

text \<open>Running a loop body over a list until the first exception.\<close>

fun collect :: "(exn + 'a list) list \<Rightarrow> exn + 'a list" where
  "collect [] = Inr []"
| "collect (Inl e # rs) = Inl e"
| "collect (Inr ls # rs) = (case collect rs of Inl e \<Rightarrow> Inl e | Inr ms \<Rightarrow> Inr (ls @ ms))"

section \<open>The operating system and the Python runtime\<close>

text \<open>
  Everything the program asks of its surroundings, as functions of the state \<open>'w\<close> of
  the world (file system, network, remote services). An operation that changes the world
  returns the new state; one that can raise returns the exception on the left. The
  \<open>unlink\<close> of the request file is taken not to raise.

  \<open>Path.exists()\<close> and \<open>Path.is_dir()\<close> call \<open>stat\<close>. They answer \<open>False\<close> for an
  \<open>OSError\<close> with \<open>ENOENT\<close>, \<open>ENOTDIR\<close>, \<open>EBADF\<close> or \<open>ELOOP\<close> and pass any other on
  (\<open>EACCES\<close>, which is a \<open>PermissionError\<close>, or \<open>ENAMETOOLONG\<close>): \<open>os_stat_error\<close> is the
  error passed on, \<open>os_exists\<close> and \<open>os_is_dir\<close> are the answers. Inside the cloned
  repository its content decides whether \<open>stat\<close> fails (a symbolic link with an
  over-long target, or one into a directory that may not be searched), so the structure
  extractor tests with \<open>path_exists\<close> and \<open>path_is_dir\<close> below. The orchestrator itself
  tests the clone directory it has made and the prompts directory of the program; there
  \<open>stat\<close> is taken not to fail and \<open>os_exists\<close> is the test.
\<close>

record completed_process =
  returncode :: int
  stdout :: pystr
  stderr :: pystr

record 'w os =
  os_mkdir :: "path \<Rightarrow> 'w \<Rightarrow> exn option \<times> 'w"
    \<comment> \<open>\<open>Path.mkdir(parents=True, exist_ok=True)\<close>\<close>
  os_git_clone :: "pystr \<Rightarrow> path \<Rightarrow> 'w \<Rightarrow> (exn + completed_process) \<times> 'w"
    \<comment> \<open>\<open>subprocess.run(["git", "clone", "--depth=1", url, dir], timeout=300)\<close>\<close>
  os_exists :: "path \<Rightarrow> 'w \<Rightarrow> bool"
    \<comment> \<open>\<open>Path.exists()\<close>, where \<open>stat\<close> raises nothing that is passed on\<close>
  os_load_json :: "path \<Rightarrow> 'w \<Rightarrow> exn + json"
    \<comment> \<open>\<open>open(path)\<close> and \<open>json.load\<close>\<close>
  os_iterdir :: "path \<Rightarrow> 'w \<Rightarrow> exn + pystr list"
    \<comment> \<open>\<open>Path.iterdir()\<close>: the names of the entries, in the order the system lists them\<close>
  os_is_dir :: "path \<Rightarrow> 'w \<Rightarrow> bool"
    \<comment> \<open>\<open>Path.is_dir()\<close>, where \<open>stat\<close> raises nothing that is passed on\<close>
  os_stat_error :: "path \<Rightarrow> 'w \<Rightarrow> exn option"
    \<comment> \<open>the \<open>OSError\<close> of \<open>stat\<close> that \<open>exists()\<close> and \<open>is_dir()\<close> pass on, if there is one\<close>
  os_glob :: "path \<Rightarrow> pystr \<Rightarrow> 'w \<Rightarrow> exn + pystr list"
    \<comment> \<open>\<open>Path.glob(pattern)\<close> for a pattern of one component: the names that match\<close>
  os_read_text :: "path \<Rightarrow> 'w \<Rightarrow> exn + pystr"
    \<comment> \<open>\<open>Path.read_text()\<close>\<close>
  os_write_request :: "pystr \<Rightarrow> 'w \<Rightarrow> (exn + path) \<times> 'w"
    \<comment> \<open>the request for a prompt, dumped as JSON into a new temporary file\<close>
  os_curl :: "pystr \<Rightarrow> path \<Rightarrow> 'w \<Rightarrow> (exn + completed_process) \<times> 'w"
    \<comment> \<open>\<open>subprocess.run(["curl", ...], timeout=120)\<close> with the API key and the request file\<close>
  os_unlink :: "path \<Rightarrow> 'w \<Rightarrow> 'w"
    \<comment> \<open>\<open>Path.unlink(missing_ok=True)\<close> of the request file\<close>
  os_write_text :: "path \<Rightarrow> pystr \<Rightarrow> 'w \<Rightarrow> exn option \<times> 'w"
    \<comment> \<open>\<open>Path.write_text(text)\<close>\<close>
  os_rmtree :: "path \<Rightarrow> 'w \<Rightarrow> 'w"
    \<comment> \<open>\<open>shutil.rmtree(path, ignore_errors=True)\<close>: never raises, whatever it removed\<close>
  json_loads :: "pystr \<Rightarrow> exn + json"
    \<comment> \<open>\<open>json.loads\<close>\<close>
  py_str :: "json \<Rightarrow> pystr"
    \<comment> \<open>\<open>str(x)\<close> of a value that is not itself a string\<close>

text \<open>\<open>Path.exists()\<close> and \<open>Path.is_dir()\<close> on a path of the cloned repository.\<close>

definition path_exists :: "'w os \<Rightarrow> path \<Rightarrow> 'w \<Rightarrow> exn + bool" where
  "path_exists os p w =
     (case os_stat_error os p w of Some e \<Rightarrow> Inl e | None \<Rightarrow> Inr (os_exists os p w))"

definition path_is_dir :: "'w os \<Rightarrow> path \<Rightarrow> 'w \<Rightarrow> exn + bool" where
  "path_is_dir os p w =
     (case os_stat_error os p w of Some e \<Rightarrow> Inl e | None \<Rightarrow> Inr (os_is_dir os p w))"

text \<open>\<open>f"{x}"\<close>: a string is inserted as it is, any other value as \<open>str(x)\<close>.\<close>

definition format_value :: "'w os \<Rightarrow> json \<Rightarrow> pystr" where
  "format_value os x = (case x of JString s \<Rightarrow> s | _ \<Rightarrow> py_str os x)"

section \<open>Structure extractor: the file tree\<close>

definition ignored_names :: "pystr list" where
  "ignored_names =
     [py ''.git'', py ''node_modules'', py ''__pycache__'', py ''venv'', py ''.venv'',
      py ''dist'', py ''build'']"

text \<open>
  The connectors, as code points: \<open>last_connector\<close> is U+2514 U+2500 U+2500 and a space,
  \<open>mid_connector\<close> is U+251C U+2500 U+2500 and a space, \<open>bar_prefix\<close> is U+2502 and three
  spaces, \<open>blank_prefix\<close> is four spaces.
\<close>

definition last_connector :: pystr where
  "last_connector = [0x2514, 0x2500, 0x2500, 0x20]"

definition mid_connector :: pystr where
  "mid_connector = [0x251C, 0x2500, 0x2500, 0x20]"

definition bar_prefix :: pystr where
  "bar_prefix = [0x2502, 0x20, 0x20, 0x20]"

definition blank_prefix :: pystr where
  "blank_prefix = [0x20, 0x20, 0x20, 0x20]"

text \<open>
  \<^verbatim>\<open>sorted(path.iterdir(), key=lambda x: (not x.is_dir(), x.name))\<close>: the key of every
  entry is computed first, in the order of the listing, and the first \<open>is_dir\<close> that raises
  ends the call; then the entries are sorted by their keys (\<open>False < True\<close>, names by code
  point). \<open>sort_key\<close> is stable, as \<open>sorted\<close> is.
\<close>

definition entry_key :: "'w os \<Rightarrow> 'w \<Rightarrow> path \<Rightarrow> exn + ((bool \<times> pystr) \<times> path) list" where
  "entry_key os w x =
     (case path_is_dir os x w of
        Inl e \<Rightarrow> Inl e
      | Inr d \<Rightarrow> Inr [((\<not> d, last x), x)])"

definition sorted_items :: "'w os \<Rightarrow> 'w \<Rightarrow> path \<Rightarrow> pystr list \<Rightarrow> exn + path list" where
  "sorted_items os w path names =
     (case collect (map (\<lambda>n. entry_key os w (path @ [n])) names) of
        Inl e \<Rightarrow> Inl e
      | Inr keyed \<Rightarrow> Inr (map snd (sort_key fst keyed)))"

text \<open>
  A piece of the walk is the lines it has appended to \<open>lines\<close> and the exception it ended
  with, if it raised. \<open>run_all\<close> runs the passes of a loop one after the other up to the
  first that raises; \<open>except_permission_error\<close> is \<^verbatim>\<open>except PermissionError: pass\<close>, which
  keeps the lines appended so far.
\<close>

fun run_all :: "(pystr list \<times> exn option) list \<Rightarrow> pystr list \<times> exn option" where
  "run_all [] = ([], None)"
| "run_all ((ls, Some e) # rs) = (ls, Some e)"
| "run_all ((ls, None) # rs) = (case run_all rs of (ms, r) \<Rightarrow> (ls @ ms, r))"

definition except_permission_error :: "pystr list \<times> exn option \<Rightarrow> pystr list \<times> exn option" where
  "except_permission_error piece =
     (case piece of
        (ls, Some e) \<Rightarrow> if exn_class e = PermissionError then (ls, None) else (ls, Some e)
      | (ls, None) \<Rightarrow> (ls, None))"

text \<open>
  \<open>walk_dir\<close> of \<open>_build_file_tree\<close>. Inside the \<open>try\<close> statement \<open>iterdir\<close> can raise, the
  keys of \<open>sorted\<close> can, and so can \<open>item.is_dir()\<close> after the line of the item has been
  appended. \<open>is_last\<close> compares the index with the length of \<open>items\<close>, ignored entries
  included. The parameter \<open>prefix\<close> of the source is \<open>pfx\<close>.
\<close>

function walk_dir ::
  "'w os \<Rightarrow> 'w \<Rightarrow> nat \<Rightarrow> path \<Rightarrow> pystr \<Rightarrow> nat \<Rightarrow> pystr list \<times> exn option" where
  "walk_dir os w max_depth path pfx depth =
     (if depth > max_depth then ([], None)
      else
        except_permission_error
          (case os_iterdir os path w of
             Inl e \<Rightarrow> ([], Some e)
           | Inr names \<Rightarrow>
               (case sorted_items os w path names of
                  Inl e \<Rightarrow> ([], Some e)
                | Inr items \<Rightarrow>
                    run_all (map (\<lambda>(i, item).
                      if last item \<in> set ignored_names then ([], None)
                      else
                        (let is_last = (i = length items - 1);
                             current_prefix = (if is_last then last_connector else mid_connector);
                             next_prefix = (if is_last then blank_prefix else bar_prefix)
                         in (case path_is_dir os item w of
                               Inl e \<Rightarrow> ([pfx @ current_prefix @ last item], Some e)
                             | Inr d \<Rightarrow>
                                 if d then
                                   (case walk_dir os w max_depth item (pfx @ next_prefix)
                                           (depth + 1) of
                                      (sub, r) \<Rightarrow> ((pfx @ current_prefix @ last item) # sub, r))
                                 else ([pfx @ current_prefix @ last item], None))))
                      (enumerate 0 items)))))"
  by pat_completeness auto
termination
  by (relation "measure (\<lambda>(os, w, max_depth, path, pfx, depth). max_depth + 1 - depth)") auto

text \<open>\<open>_build_file_tree\<close>: the lines joined, unless the walk left with an exception.\<close>

definition build_file_tree :: "'w os \<Rightarrow> 'w \<Rightarrow> path \<Rightarrow> exn + pystr" where
  "build_file_tree os w repo_dir =
     (case walk_dir os w 3 repo_dir [] 0 of
        (lines, Some e) \<Rightarrow> Inl e
      | (lines, None) \<Rightarrow> Inr (join [10] lines))"

section \<open>Structure extractor: the key files\<close>

definition common_files :: "pystr list" where
  "common_files =
     [py ''README.md'', py ''package.json'', py ''requirements.txt'', py ''pyproject.toml'',
      py ''Cargo.toml'', py ''.github/workflows/*.yml'', py ''.github/workflows/*.yaml'']"

definition star :: nat where
  "star = of_char CHR ''*''"

text \<open>
  \<^verbatim>\<open>try: key_files[key] = file.read_text()[:5000]\<close> \<^verbatim>\<open>except: pass\<close>.
  A dict is an association list; \<open>AList.update\<close> replaces the value of a key that is there
  and appends a new key at the end.
\<close>

definition record_file ::
  "'w os \<Rightarrow> 'w \<Rightarrow> path \<Rightarrow> pystr \<Rightarrow> (pystr \<times> pystr) list \<Rightarrow> (pystr \<times> pystr) list" where
  "record_file os w file key key_files =
     (case os_read_text os file w of
        Inl e \<Rightarrow> key_files
      | Inr text \<Rightarrow> AList.update key (take 5000 text) key_files)"

text \<open>
  The body of the loop over \<open>common_files\<close>. \<open>Path(pattern)\<close> has the components
  \<open>split slash pattern\<close>: all but the last are its \<open>parent\<close>, the last is its \<open>name\<close>; the
  key of a file found by \<open>glob\<close> is its path relative to \<open>repo_dir\<close>. The two tests
  \<open>exists()\<close> and the \<open>glob\<close> stand outside the \<open>try\<close> statement: what they raise leaves
  \<open>_read_key_files\<close>.
\<close>

definition read_pattern ::
  "'w os \<Rightarrow> 'w \<Rightarrow> path \<Rightarrow> pystr \<Rightarrow> (pystr \<times> pystr) list \<Rightarrow> exn + (pystr \<times> pystr) list" where
  "read_pattern os w repo_dir pattern key_files =
     (if star \<in> set pattern then
        (let parent = repo_dir @ butlast (split slash pattern)
         in (case path_exists os parent w of
               Inl e \<Rightarrow> Inl e
             | Inr found \<Rightarrow>
                 if found then
                   (case os_glob os parent (last (split slash pattern)) w of
                      Inl e \<Rightarrow> Inl e
                    | Inr names \<Rightarrow>
                        Inr (fold (\<lambda>name. record_file os w (parent @ [name])
                                     (join [slash] (butlast (split slash pattern) @ [name])))
                               names key_files))
                 else Inr key_files))
      else
        (let file_path = repo_dir @ split slash pattern
         in (case path_exists os file_path w of
               Inl e \<Rightarrow> Inl e
             | Inr found \<Rightarrow>
                 Inr (if found then record_file os w file_path pattern key_files
                      else key_files))))"

text \<open>The loop over the patterns, with the dict filled so far.\<close>

fun read_patterns ::
  "'w os \<Rightarrow> 'w \<Rightarrow> path \<Rightarrow> pystr list \<Rightarrow> (pystr \<times> pystr) list \<Rightarrow> exn + (pystr \<times> pystr) list" where
  "read_patterns os w repo_dir [] key_files = Inr key_files"
| "read_patterns os w repo_dir (pattern # patterns) key_files =
     (case read_pattern os w repo_dir pattern key_files of
        Inl e \<Rightarrow> Inl e
      | Inr filled \<Rightarrow> read_patterns os w repo_dir patterns filled)"

definition read_key_files :: "'w os \<Rightarrow> 'w \<Rightarrow> path \<Rightarrow> exn + (pystr \<times> pystr) list" where
  "read_key_files os w repo_dir = read_patterns os w repo_dir common_files []"

section \<open>Prompt assembler and model invoker\<close>

definition fence :: pystr where
  "fence = [96, 96, 96]"

text \<open>The first three elements of \<open>prompt_parts\<close>.\<close>

definition header_parts :: "pystr \<Rightarrow> pystr \<Rightarrow> pystr \<Rightarrow> pystr list" where
  "header_parts repo_name repo_type file_tree =
     [py ''# Architecture Analysis for '' @ repo_name,
      [10] @ py ''Repository Type: '' @ repo_type,
      [10] @ py ''## File Structure'' @ [10] @ fence @ [10] @ file_tree @ [10] @ fence]"

text \<open>\<^verbatim>\<open>if key_files:\<close> and the loop over \<open>key_files.items()\<close>.\<close>

definition key_file_parts :: "(pystr \<times> pystr) list \<Rightarrow> pystr list" where
  "key_file_parts key_files =
     (if key_files \<noteq> [] then
        ([10] @ py ''## Key Files'') #
        map (\<lambda>(filename, content).
               [10] @ py ''### '' @ filename @ [10] @ fence @ [10] @ content @ [10] @ fence)
          key_files
      else [])"

definition request_parts :: "pystr list" where
  "request_parts =
     [[10] @ py ''## Analysis Request'',
      py ''Generate comprehensive architecture documentation covering:'',
      py ''1. System Overview'',
      py ''2. Key Components'',
      py ''3. Data Flow'',
      py ''4. Technology Stack'',
      py ''5. Deployment Architecture'',
      py ''6. Security Considerations'']"

text \<open>
  \<^verbatim>\<open>f"- {prompt.get('description', prompt.get('name', 'Unknown'))}"\<close>
\<close>

definition render_prompt :: "'w os \<Rightarrow> json \<Rightarrow> exn + pystr" where
  "render_prompt os prompt =
     (case py_get prompt (py ''name'') (JString (py ''Unknown'')) of
        Inl e \<Rightarrow> Inl e
      | Inr fallback \<Rightarrow>
          (case py_get prompt (py ''description'') fallback of
             Inl e \<Rightarrow> Inl e
           | Inr v \<Rightarrow> Inr (py ''- '' @ format_value os v)))"

definition investigation_header :: pystr where
  "investigation_header = [10] @ py ''## Specific Investigation Points''"

text \<open>\<^verbatim>\<open>if prompts:\<close> and the loop over \<open>prompts[:5]\<close>.\<close>

definition investigation_parts :: "'w os \<Rightarrow> json \<Rightarrow> exn + pystr list" where
  "investigation_parts os prompts =
     (if py_truthy prompts then
        (case py_first5 prompts of
           Inl e \<Rightarrow> Inl e
         | Inr first5 \<Rightarrow>
             (case collect (map (\<lambda>prompt. case render_prompt os prompt of
                                             Inl e \<Rightarrow> Inl e | Inr line \<Rightarrow> Inr [line]) first5) of
                Inl e \<Rightarrow> Inl e
              | Inr lines \<Rightarrow> Inr (investigation_header # lines)))
      else Inr [])"

definition prompt_parts ::
  "'w os \<Rightarrow> pystr \<Rightarrow> pystr \<Rightarrow> pystr \<Rightarrow> (pystr \<times> pystr) list \<Rightarrow> json \<Rightarrow> exn + pystr list" where
  "prompt_parts os repo_name repo_type file_tree key_files prompts =
     (case investigation_parts os prompts of
        Inl e \<Rightarrow> Inl e
      | Inr investigation \<Rightarrow>
          Inr (header_parts repo_name repo_type file_tree @ key_file_parts key_files
               @ request_parts @ investigation))"

text \<open>
  Lines 256 to 259 of \<open>_call_claude_api\<close>:
  \<^verbatim>\<open>if 'content' in response_data and len(response_data['content']) > 0:\<close>
  \<^verbatim>\<open>return response_data['content'][0]['text']\<close>, else
  \<^verbatim>\<open>raise Exception(f"Claude API error: {response_data}")\<close>.
\<close>

definition api_error :: "'w os \<Rightarrow> json \<Rightarrow> exn" where
  "api_error os response_data =
     Exn PlainException (py ''Claude API error: '' @ format_value os response_data)"

definition extract_text :: "'w os \<Rightarrow> json \<Rightarrow> exn + json" where
  "extract_text os response_data =
     (case py_contains (py ''content'') response_data of
        Inl e \<Rightarrow> Inl e
      | Inr False \<Rightarrow> Inl (api_error os response_data)
      | Inr True \<Rightarrow>
          (case py_getitem response_data (py ''content'') of
             Inl e \<Rightarrow> Inl e
           | Inr content \<Rightarrow>
               (case py_len content of
                  Inl e \<Rightarrow> Inl e
                | Inr n \<Rightarrow>
                    if n > 0 then
                      (case py_first content of
                         Inl e \<Rightarrow> Inl e
                       | Inr block \<Rightarrow> py_getitem block (py ''text''))
                    else Inl (api_error os response_data))))"

text \<open>
  \<open>_call_claude_api\<close>: the prompt is assembled, the request written to a temporary file,
  \<open>curl\<close> run, its output parsed and the text extracted; the \<open>finally\<close> clause unlinks
  the request file whatever happened after it was written.
\<close>

definition call_claude_api ::
  "'w os \<Rightarrow> pystr \<Rightarrow> pystr \<Rightarrow> pystr \<Rightarrow> pystr \<Rightarrow> (pystr \<times> pystr) list \<Rightarrow> json \<Rightarrow> 'w
     \<Rightarrow> (exn + json) \<times> 'w" where
  "call_claude_api os api_key repo_name repo_type file_tree key_files prompts w =
     (case prompt_parts os repo_name repo_type file_tree key_files prompts of
        Inl e \<Rightarrow> (Inl e, w)
      | Inr parts \<Rightarrow>
          (case os_write_request os (join [10] parts) w of
             (Inl e, w1) \<Rightarrow> (Inl e, w1)
           | (Inr request_file, w1) \<Rightarrow>
               (case os_curl os api_key request_file w1 of
                  (Inl e, w2) \<Rightarrow> (Inl e, os_unlink os request_file w2)
                | (Inr result, w2) \<Rightarrow>
                    ((case json_loads os (stdout result) of
                        Inl e \<Rightarrow> Inl e
                      | Inr response_data \<Rightarrow> extract_text os response_data),
                     os_unlink os request_file w2))))"

section \<open>Single-repository orchestrator\<close>

record analysis_result =
  success :: bool
  repo_name :: pystr
  output_file :: "path option"
  error :: "pystr option"

text \<open>
  Lines 71 to 83: the catalog of the repository type. The \<open>print\<close> after \<open>json.load\<close>
  evaluates \<^verbatim>\<open>len(prompts_config.get('prompts', []))\<close>, which can raise.
\<close>

definition load_prompts_config :: "'w os \<Rightarrow> 'w \<Rightarrow> pystr \<Rightarrow> exn + json" where
  "load_prompts_config os w repo_type =
     (let prompts_dir =
            (if \<not> os_exists os [py ''prompts'', repo_type] w then [py ''prompts'', py ''shared'']
             else [py ''prompts'', repo_type]);
          prompts_file = prompts_dir @ [py ''prompts.json'']
      in if os_exists os prompts_file w then
           (case os_load_json os prompts_file w of
              Inl e \<Rightarrow> Inl e
            | Inr prompts_config \<Rightarrow>
                (case py_get prompts_config (py ''prompts'') (JArray []) of
                   Inl e \<Rightarrow> Inl e
                 | Inr loaded \<Rightarrow>
                     (case py_len loaded of
                        Inl e \<Rightarrow> Inl e
                      | Inr n \<Rightarrow> Inr prompts_config)))
         else Inr (JObject [(py ''prompts'', JArray [])]))"

text \<open>
  The body of the \<open>try\<close> statement (lines 57 to 112), from the clone to the returned
  result. \<open>write_text\<close> accepts a \<open>str\<close> only.
\<close>

definition pipeline ::
  "'w os \<Rightarrow> pystr \<Rightarrow> pystr \<Rightarrow> pystr \<Rightarrow> path \<Rightarrow> 'w \<Rightarrow> (exn + analysis_result) \<times> 'w" where
  "pipeline os api_key repo_url repo_type output_dir w =
     (case os_git_clone os repo_url (clone_dir_of output_dir repo_url) w of
        (Inl e, w1) \<Rightarrow> (Inl e, w1)
      | (Inr result, w1) \<Rightarrow>
          if returncode result \<noteq> 0 then
            (Inl (Exn PlainException (py ''Git clone failed: '' @ stderr result)), w1)
          else
            (case load_prompts_config os w1 repo_type of
               Inl e \<Rightarrow> (Inl e, w1)
             | Inr prompts_config \<Rightarrow>
                 (case build_file_tree os w1 (clone_dir_of output_dir repo_url) of
                    Inl e \<Rightarrow> (Inl e, w1)
                  | Inr file_tree \<Rightarrow>
                      (case read_key_files os w1 (clone_dir_of output_dir repo_url) of
                         Inl e \<Rightarrow> (Inl e, w1)
                       | Inr key_files \<Rightarrow>
                           (case py_get prompts_config (py ''prompts'') (JArray []) of
                              Inl e \<Rightarrow> (Inl e, w1)
                            | Inr prompts \<Rightarrow>
                                (case call_claude_api os api_key (repo_name_of repo_url)
                                        repo_type file_tree key_files prompts w1 of
                                   (Inl e, w2) \<Rightarrow> (Inl e, w2)
                                 | (Inr (JString arch_doc), w2) \<Rightarrow>
                                     (case os_write_text os (output_file_of output_dir repo_url)
                                             arch_doc w2 of
                                        (Some e, w3) \<Rightarrow> (Inl e, w3)
                                      | (None, w3) \<Rightarrow>
                                          (Inr \<lparr>success = True,
                                                repo_name = repo_name_of repo_url,
                                                output_file =
                                                  Some (output_file_of output_dir repo_url),
                                                error = None\<rparr>, w3))
                                 | (Inr other, w2) \<Rightarrow>
                                     (Inl (Exn TypeError
                                        (py ''data must be str, not '' @ type_name other)),
                                      w2)))))))"

text \<open>
  \<open>analyze_repository\<close>. The directory is made (line 54) before the \<open>try\<close> statement
  is entered, so an exception of \<open>mkdir\<close> leaves the function. Inside, \<open>except Exception\<close>
  turns an exception into the failed result, and \<open>finally\<close> removes the clone directory
  if it exists.
\<close>

definition analyze_repository ::
  "'w os \<Rightarrow> pystr \<Rightarrow> pystr \<Rightarrow> pystr \<Rightarrow> path \<Rightarrow> 'w \<Rightarrow> (exn + analysis_result) \<times> 'w" where
  "analyze_repository os api_key repo_url repo_type output_dir w =
     (case os_mkdir os (clone_dir_of output_dir repo_url) w of
        (Some e, w0) \<Rightarrow> (Inl e, w0)
      | (None, w0) \<Rightarrow>
          (case pipeline os api_key repo_url repo_type output_dir w0 of
             (outcome, w1) \<Rightarrow>
               (Inr (case outcome of
                       Inr result \<Rightarrow> result
                     | Inl e \<Rightarrow>
                         \<lparr>success = False,
                          repo_name = repo_name_of repo_url,
                          output_file = None,
                          error = Some (message e)\<rparr>),
                if os_exists os (clone_dir_of output_dir repo_url) w1
                then os_rmtree os (clone_dir_of output_dir repo_url) w1 else w1)))"

section \<open>Batch driver\<close>

text \<open>
  The loop of \<open>analyze_all_repositories\<close> over \<open>repos.items()\<close>, with the results
  collected so far. A repository's configuration is a dict of strings;
  \<open>repo_config["url"]\<close> and \<open>repo_config["type"]\<close> raise \<open>KeyError\<close> on a missing key.
  Nothing in the loop catches an exception.
\<close>

fun analyze_each ::
  "'w os \<Rightarrow> pystr \<Rightarrow> path \<Rightarrow> (pystr \<times> (pystr \<times> pystr) list) list \<Rightarrow> analysis_result list \<Rightarrow> 'w
     \<Rightarrow> (exn + analysis_result list) \<times> 'w" where
  "analyze_each os api_key output_dir [] results w = (Inr results, w)"
| "analyze_each os api_key output_dir ((name, repo_config) # rest) results w =
     (case map_of repo_config (py ''url'') of
        None \<Rightarrow> (Inl (Exn KeyError ([39] @ py ''url'' @ [39])), w)
      | Some repo_url \<Rightarrow>
          (case map_of repo_config (py ''type'') of
             None \<Rightarrow> (Inl (Exn KeyError ([39] @ py ''type'' @ [39])), w)
           | Some repo_type \<Rightarrow>
               (case analyze_repository os api_key repo_url repo_type output_dir w of
                  (Inl e, w') \<Rightarrow> (Inl e, w')
                | (Inr result, w') \<Rightarrow>
                    analyze_each os api_key output_dir rest (results @ [result]) w')))"

text \<open>
  \<open>analyze_all_repositories\<close>, from the loaded \<open>repos\<close> on: the output directory is made,
  then every repository analysed in the order of the dict. The value is the list
  \<open>results\<close> that the summary is printed from.
\<close>

definition analyze_all_repositories ::
  "'w os \<Rightarrow> pystr \<Rightarrow> path \<Rightarrow> (pystr \<times> (pystr \<times> pystr) list) list \<Rightarrow> 'w
     \<Rightarrow> (exn + analysis_result list) \<times> 'w" where
  "analyze_all_repositories os api_key output_dir repos w =
     (case os_mkdir os output_dir w of
        (Some e, w0) \<Rightarrow> (Inl e, w0)
      | (None, w0) \<Rightarrow> analyze_each os api_key output_dir repos [] w0)"

section \<open>Notions the claims are stated with\<close>

text \<open>
  The state of the world in which each repository of a batch is analysed, for a batch
  whose entries have their \<open>url\<close> and \<open>type\<close>: the first in \<open>w\<close>, each later one in the
  state that the analysis of the entry before it has left.
\<close>

definition url_of :: "(pystr \<times> pystr) list \<Rightarrow> pystr" where
  "url_of repo_config = the (map_of repo_config (py ''url''))"

definition type_of :: "(pystr \<times> pystr) list \<Rightarrow> pystr" where
  "type_of repo_config = the (map_of repo_config (py ''type''))"

fun worlds_before ::
  "'w os \<Rightarrow> pystr \<Rightarrow> path \<Rightarrow> (pystr \<times> (pystr \<times> pystr) list) list \<Rightarrow> 'w \<Rightarrow> 'w list" where
  "worlds_before os api_key output_dir [] w = []"
| "worlds_before os api_key output_dir ((name, repo_config) # rest) w =
     w # worlds_before os api_key output_dir rest
           (snd (analyze_repository os api_key (url_of repo_config) (type_of repo_config)
                   output_dir w))"

text \<open>
  What the line of a catalog entry shows: its description, its name when it has no
  description, \<open>Unknown\<close> when it has neither.
\<close>

definition entry_text :: "'w os \<Rightarrow> (pystr \<times> json) list \<Rightarrow> pystr" where
  "entry_text os kv =
     (case map_of kv (py ''description'') of
        Some d \<Rightarrow> format_value os d
      | None \<Rightarrow> (case map_of kv (py ''name'') of
                   Some n \<Rightarrow> format_value os n
                 | None \<Rightarrow> py ''Unknown''))"

text \<open>
  The key files a pattern of the allow-list matches under \<open>repo_dir\<close>, each with the key
  it is recorded under: the files \<open>glob\<close> finds for a pattern with a wildcard when the
  pattern's parent directory exists, the file of that name when it exists otherwise. The
  search itself fails with the exception that \<open>exists()\<close> or \<open>glob\<close> raises.
\<close>

definition pattern_matches ::
  "'w os \<Rightarrow> 'w \<Rightarrow> path \<Rightarrow> pystr \<Rightarrow> exn + (pystr \<times> path) list" where
  "pattern_matches os w repo_dir pattern =
     (if star \<in> set pattern then
        (case path_exists os (repo_dir @ butlast (split slash pattern)) w of
           Inl e \<Rightarrow> Inl e
         | Inr found \<Rightarrow>
             if found then
               (case os_glob os (repo_dir @ butlast (split slash pattern))
                       (last (split slash pattern)) w of
                  Inl e \<Rightarrow> Inl e
                | Inr names \<Rightarrow>
                    Inr (map (\<lambda>name. (join [slash] (butlast (split slash pattern) @ [name]),
                                       repo_dir @ butlast (split slash pattern) @ [name]))
                           names))
             else Inr [])
      else
        (case path_exists os (repo_dir @ split slash pattern) w of
           Inl e \<Rightarrow> Inl e
         | Inr found \<Rightarrow>
             Inr (if found then [(pattern, repo_dir @ split slash pattern)] else [])))"

text \<open>
  Two states of the world hold the same directory structure: \<open>is_dir\<close> answers the same
  for every path, or fails with the same exception, and every directory has the same
  entries, each name once, or fails to be listed with the same exception. The order
  in which the system lists the entries is free.
\<close>

definition same_structure :: "'w os \<Rightarrow> 'w \<Rightarrow> 'w \<Rightarrow> bool" where
  "same_structure os w1 w2 \<longleftrightarrow>
     (\<forall>p. path_is_dir os p w1 = path_is_dir os p w2)
     \<and> (\<forall>p. case (os_iterdir os p w1, os_iterdir os p w2) of
               (Inr names1, Inr names2) \<Rightarrow> mset names1 = mset names2 \<and> distinct names1
             | (Inl e1, Inl e2) \<Rightarrow> e1 = e2
             | _ \<Rightarrow> False)"

text \<open>
  The entries of one directory whose \<open>is_dir\<close> raises all raise the same exception.
\<close>

definition is_dir_errors_agree :: "'w os \<Rightarrow> 'w \<Rightarrow> bool" where
  "is_dir_errors_agree os w \<longleftrightarrow>
     (\<forall>p names n1 n2 e1 e2.
        os_iterdir os p w = Inr names \<and> n1 \<in> set names \<and> n2 \<in> set names
        \<and> path_is_dir os (p @ [n1]) w = Inl e1 \<and> path_is_dir os (p @ [n2]) w = Inl e2
        \<longrightarrow> e1 = e2)"

text \<open>
  A line of the tree: the prefix of the walk, then one indentation unit for each further
  level, a connector and the name of an entry.
\<close>

definition tree_line :: "pystr \<Rightarrow> pystr \<Rightarrow> pystr \<Rightarrow> bool" where
  "tree_line pfx name l \<longleftrightarrow>
     (\<exists>units connector.
        set units \<subseteq> {bar_prefix, blank_prefix}
        \<and> connector \<in> {last_connector, mid_connector}
        \<and> l = pfx @ concat units @ connector @ name)"

section \<open>A small world for the examples\<close>

text \<open>
  The state of \<open>example_os\<close> is the list of the paths that exist. \<open>mkdir\<close> refuses a
  component of more than 255 characters, as a file system does (\<open>ENAMETOOLONG\<close>);
  cloning a URL that contains \<open>missing\<close> fails with exit status 128, any other clone puts
  a \<open>README.md\<close> into the directory; a name without a dot is a directory; \<open>stat\<close> never fails and \<open>glob\<close>
  finds nothing; the model
  service answers with one block of text; \<open>str\<close> is given for the two values the
  examples print, \<open>5\<close> and the empty dict.
\<close>

definition good_response :: json where
  "good_response =
     JObject [(py ''content'',
               JArray [JObject [(py ''type'', JString (py ''text'')),
                                (py ''text'', JString (py ''# Architecture''))]])]"

text \<open>
  Answers of the service as \<open>curl\<close> prints them, with their values under
  \<open>json.loads\<close>: the good response and a response whose first block is no text block
  (the number \<open>5\<close> and the empty object \<open>{}\<close> are written out where they are used).
  \<open>[34]\<close> is the double quote.
\<close>

definition good_stdout :: pystr where
  "good_stdout =
     py ''{'' @ [34] @ py ''content'' @ [34] @ py '': [{'' @ [34] @ py ''type'' @ [34] @ py '': ''
     @ [34] @ py ''text'' @ [34] @ py '', '' @ [34] @ py ''text'' @ [34] @ py '': '' @ [34]
     @ py ''# Architecture'' @ [34] @ py ''}]}''"

definition tool_use_response :: json where
  "tool_use_response =
     JObject [(py ''content'', JArray [JObject [(py ''type'', JString (py ''tool_use''))]])]"

definition tool_use_stdout :: pystr where
  "tool_use_stdout =
     py ''{'' @ [34] @ py ''content'' @ [34] @ py '': [{'' @ [34] @ py ''type'' @ [34] @ py '': ''
     @ [34] @ py ''tool_use'' @ [34] @ py ''}]}''"

definition example_os :: "(path list) os" where
  "example_os =
     \<lparr>os_mkdir = (\<lambda>p w.
        if list_ex (\<lambda>n. 255 < length n) p
        then (Some (Exn OSError (py ''[Errno 36] File name too long'')), w)
        else (None, p # w)),
      os_git_clone = (\<lambda>url dir w.
        if sublist (py ''missing'') url
        then (Inr \<lparr>returncode = 128, stdout = [],
                   stderr = py ''fatal: repository not found''\<rparr>, w)
        else (Inr \<lparr>returncode = 0, stdout = [], stderr = []\<rparr>, (dir @ [py ''README.md'']) # w)),
      os_exists = (\<lambda>p w. p \<in> set w),
      os_load_json = (\<lambda>p w. Inl (Exn OSError (py ''[Errno 2] No such file or directory''))),
      os_iterdir = (\<lambda>p w. Inr (map last (filter (\<lambda>q. q \<noteq> [] \<and> butlast q = p) w))),
      os_is_dir = (\<lambda>p w. p \<in> set w \<and> 46 \<notin> set (last p)),
      os_stat_error = (\<lambda>p w. None),
      os_glob = (\<lambda>p pat w. Inr []),
      os_read_text = (\<lambda>p w. if p \<in> set w then Inr (py ''# Readme'')
                             else Inl (Exn OSError (py ''[Errno 2] No such file or directory''))),
      os_write_request = (\<lambda>prompt w. (Inr [py ''tmp'', py ''request.json''], w)),
      os_curl = (\<lambda>key file w. (Inr \<lparr>returncode = 0, stdout = good_stdout, stderr = []\<rparr>, w)),
      os_unlink = (\<lambda>p w. w),
      os_write_text = (\<lambda>p text w. (None, p # w)),
      os_rmtree = (\<lambda>p w. filter (\<lambda>q. \<not> prefix p q) w),
      json_loads = (\<lambda>s. if s = good_stdout then Inr good_response
                         else if s = tool_use_stdout then Inr tool_use_response
                         else if s = py ''5'' then Inr (JInt 5)
                         else if s = py ''{}'' then Inr (JObject [])
                         else Inl (Exn JSONDecodeError (py ''Expecting value''))),
      py_str = (\<lambda>x. if x = JInt 5 then py ''5'' else if x = JObject [] then py ''{}'' else [])\<rparr>"

text \<open>The example world with a service that answers \<open>out\<close>.\<close>

definition answering_os :: "pystr \<Rightarrow> (path list) os" where
  "answering_os out =
     example_os\<lparr>os_curl :=
       (\<lambda>key file w. (Inr \<lparr>returncode = 0, stdout = out, stderr = []\<rparr>, w))\<rparr>"

text \<open>A directory with the two subdirectories \<open>src\<close> and \<open>venv\<close>, both empty.\<close>

definition src_and_venv :: "path list" where
  "src_and_venv = [[py ''repo'', py ''src''], [py ''repo'', py ''venv''], [py ''repo'']]"

text \<open>A URL whose last segment has 300 characters.\<close>

definition long_url :: pystr where
  "long_url = py ''https://github.com/user'' @ slash # replicate 300 97"

text \<open>
  The same world with files that cannot be removed (read-only files on some systems):
  \<open>rmtree\<close> with \<open>ignore_errors=True\<close> returns and nothing is gone.
\<close>

definition stuck_os :: "(path list) os" where
  "stuck_os = example_os\<lparr>os_rmtree := (\<lambda>p w. w)\<rparr>"

text \<open>
  Two batches: a repository that cannot be cloned followed by one that can, and a
  repository with the long URL followed by the same good one.
\<close>

definition two_repos :: "(pystr \<times> (pystr \<times> pystr) list) list" where
  "two_repos =
     [(py ''first'', [(py ''url'', py ''https://github.com/user/missing.git''),
                      (py ''type'', py ''backend'')]),
      (py ''second'', [(py ''url'', py ''https://github.com/user/repo.git''),
                       (py ''type'', py ''backend'')])]"

definition long_repos :: "(pystr \<times> (pystr \<times> pystr) list) list" where
  "long_repos =
     [(py ''first'', [(py ''url'', long_url), (py ''type'', py ''backend'')]),
      (py ''second'', [(py ''url'', py ''https://github.com/user/repo.git''),
                       (py ''type'', py ''backend'')])]"

text \<open>
  A world with a shared prompt catalog of one prompt, and no catalog of any type.
\<close>

definition shared_catalog :: json where
  "shared_catalog =
     JObject [(py ''prompts'',
               JArray [JObject [(py ''name'', JString (py ''security'')),
                                (py ''description'', JString (py ''Review the security model''))]])]"

definition catalog_os :: "(path list) os" where
  "catalog_os =
     example_os\<lparr>os_load_json := (\<lambda>p w.
        if p = [py ''prompts'', py ''shared'', py ''prompts.json''] \<and> p \<in> set w
        then Inr shared_catalog
        else Inl (Exn OSError (py ''[Errno 2] No such file or directory'')))\<rparr>"

definition shared_only :: "path list" where
  "shared_only =
     [[py ''prompts''], [py ''prompts'', py ''shared''],
      [py ''prompts'', py ''shared'', py ''prompts.json'']]"

text \<open>A catalog of six prompts: with description, with a name only, with neither.\<close>

definition six_prompts :: "json list" where
  "six_prompts =
     [JObject [(py ''name'', JString (py ''security'')),
               (py ''description'', JString (py ''Review the security model''))],
      JObject [(py ''name'', JString (py ''api''))],
      JObject [],
      JObject [(py ''name'', JString (py ''data'')),
               (py ''description'', JString (py ''Describe the data flow''))],
      JObject [(py ''name'', JString (py ''deploy''))],
      JObject [(py ''name'', JString (py ''sixth'')),
               (py ''description'', JString (py ''Never listed''))]]"

text \<open>
  A repository with a \<open>README.md\<close> of 6000 characters, a small \<open>package.json\<close> and a
  \<open>requirements.txt\<close> that cannot be read.
\<close>

definition files_os :: "(path list) os" where
  "files_os =
     example_os\<lparr>os_read_text := (\<lambda>p w.
        if p = [py ''repo'', py ''README.md''] then Inr (replicate 6000 97)
        else if p = [py ''repo'', py ''package.json''] then Inr (py ''{}'')
        else Inl (Exn PermissionError (py ''[Errno 13] Permission denied'')))\<rparr>"

definition three_files :: "path list" where
  "three_files =
     [[py ''repo'', py ''README.md''], [py ''repo'', py ''package.json''],
      [py ''repo'', py ''requirements.txt''], [py ''repo'']]"

text \<open>One directory as the system may list it on two runs.\<close>

definition listed_one_way :: "path list" where
  "listed_one_way =
     [[py ''repo'', py ''src''], [py ''repo'', py ''README.md''], [py ''repo'', py ''venv''],
      [py ''repo'']]"

definition listed_other_way :: "path list" where
  "listed_other_way =
     [[py ''repo''], [py ''repo'', py ''venv''], [py ''repo'', py ''README.md''],
      [py ''repo'', py ''src'']]"

text \<open>
  A repository whose \<open>README.md\<close> is a symbolic link to a name of more than 255
  characters: \<open>stat\<close> follows the link and fails with \<open>ENAMETOOLONG\<close>.
\<close>

definition long_link_os :: "(path list) os" where
  "long_link_os =
     example_os\<lparr>os_stat_error := (\<lambda>p w.
        if p = [py ''repo'', py ''README.md'']
        then Some (Exn OSError (py ''[Errno 36] File name too long'')) else None)\<rparr>"

definition linked_readme :: "path list" where
  "linked_readme = [[py ''repo'', py ''README.md''], [py ''repo'']]"

text \<open>
  A repository with two symbolic links: \<open>private\<close> leads into a directory that may not
  be searched (\<open>EACCES\<close>, a \<open>PermissionError\<close>), \<open>deep\<close> to a name of more than 255
  characters (\<open>ENAMETOOLONG\<close>). The system lists the two in either order.
\<close>

definition two_links_os :: "(path list) os" where
  "two_links_os =
     example_os\<lparr>os_stat_error := (\<lambda>p w.
        if p = [py ''repo'', py ''private'']
        then Some (Exn PermissionError (py ''[Errno 13] Permission denied''))
        else if p = [py ''repo'', py ''deep'']
        then Some (Exn OSError (py ''[Errno 36] File name too long''))
        else None)\<rparr>"

definition links_one_way :: "path list" where
  "links_one_way = [[py ''repo'', py ''private''], [py ''repo'', py ''deep''], [py ''repo'']]"

definition links_other_way :: "path list" where
  "links_other_way = [[py ''repo'', py ''deep''], [py ''repo'', py ''private''], [py ''repo'']]"


section \<open>Properties of the derived names\<close>

lemma split_not_Nil: "split sep s \<noteq> []"
  by (induction s) (auto split: list.splits)

lemma last_split_no_sep: "sep \<notin> set (last (split sep s))"
  by (induction s) (auto split: list.splits simp: split_not_Nil)

lemma split_single: "split sep s = [f] \<Longrightarrow> s = f"
  by (induction s arbitrary: f) (auto split: if_splits list.splits simp: split_not_Nil)

lemma last_split_suffix:
  "s = last (split sep s) \<or> (\<exists>pre. s = pre @ sep # last (split sep s))"
proof (induction s)
  case Nil
  then show ?case by simp
next
  case (Cons c cs)
  obtain f fs where sp: "split sep cs = f # fs"
    using split_not_Nil [of sep cs] by (cases "split sep cs") auto
  show ?case
  proof (cases "c = sep")
    case True
    from Cons have "\<exists>pre. c # cs = pre @ sep # last (split sep cs)"
    proof
      assume "cs = last (split sep cs)"
      with True have "c # cs = [] @ sep # last (split sep cs)" by simp
      then show ?thesis by blast
    next
      assume "\<exists>pre. cs = pre @ sep # last (split sep cs)"
      then obtain pre where "c # cs = (c # pre) @ sep # last (split sep cs)" by auto
      then show ?thesis by blast
    qed
    with True show ?thesis by (simp add: split_not_Nil)
  next
    case False
    show ?thesis
    proof (cases fs)
      case Nil
      with sp have "cs = f" by (simp add: split_single)
      with sp Nil False show ?thesis by simp
    next
      case (Cons g gs)
      with sp False have l: "last (split sep (c # cs)) = last (split sep cs)" by simp
      from Cons.IH show ?thesis
      proof
        assume "cs = last (split sep cs)"
        with last_split_no_sep [of sep cs] have "sep \<notin> set cs" by simp
        moreover have "sep \<in> set cs \<or> fs = []"
          using sp by (induction cs arbitrary: f fs) (auto split: if_splits list.splits)
        ultimately show ?thesis using Cons by simp
      next
        assume "\<exists>pre. cs = pre @ sep # last (split sep cs)"
        then obtain pre where "c # cs = (c # pre) @ sep # last (split sep cs)" by auto
        with l show ?thesis by metis
      qed
    qed
  qed
qed

lemma join_Cons: "ps \<noteq> [] \<Longrightarrow> join sep (p # ps) = p @ sep @ join sep ps"
  by (cases ps) auto

lemma join_Cons_head: "\<exists>r. join sep (p # ps) = p @ r"
  by (cases ps) auto

lemma join_cons_char: "join sep ((c # p) # ps) = c # join sep (p # ps)"
  by (cases ps) auto

lemma replace_pieces:
  assumes "old \<noteq> []"
  shows "\<exists>ps. ps \<noteq> [] \<and> s = join old ps \<and> (\<forall>p\<in>set ps. \<not> sublist old p)
            \<and> replace old [] s = concat ps"
  using assms
proof (induction old "[] :: pystr" s rule: replace.induct)
  case (1 old)
  then show ?case
    by (intro exI [of _ "[[]]"]) simp
next
  case (2 old c cs)
  show ?case
  proof (cases "prefix old (c # cs)")
    case True
    then obtain old' where old: "old = c # old'" and pre: "prefix old' cs"
      using \<open>old \<noteq> []\<close> by (cases old) auto
    from pre have cs: "cs = old' @ drop (length old - 1) cs"
      by (auto simp: old prefix_def)
    from 2(2) [OF \<open>old \<noteq> []\<close> True] \<open>old \<noteq> []\<close>
    obtain ps where ps: "ps \<noteq> []" "drop (length old - 1) cs = join old ps"
      "\<forall>p\<in>set ps. \<not> sublist old p"
      "replace old [] (drop (length old - 1) cs) = concat ps"
      by auto
    have "c # cs = join old ([] # ps)"
      using ps(1,2) cs old by (simp add: join_Cons)
    moreover have "replace old [] (c # cs) = concat ([] # ps)"
      using True \<open>old \<noteq> []\<close> ps(4) by simp
    moreover have "\<forall>p\<in>set ([] # ps). \<not> sublist old p"
      using ps(3) \<open>old \<noteq> []\<close> by simp
    ultimately show ?thesis
      by (intro exI [of _ "[] # ps"]) simp
  next
    case False
    from 2(3) [OF \<open>old \<noteq> []\<close> False] \<open>old \<noteq> []\<close>
    obtain ps where ps: "ps \<noteq> []" "cs = join old ps" "\<forall>p\<in>set ps. \<not> sublist old p"
      "replace old [] cs = concat ps"
      by auto
    then obtain p qs where pq: "ps = p # qs" by (cases ps) auto
    obtain r where r: "join old (p # qs) = p @ r"
      using join_Cons_head by blast
    have "\<not> prefix old (c # p)"
    proof
      assume "prefix old (c # p)"
      then have "prefix old (c # p @ r)"
        by (metis append_Cons prefix_prefix)
      with False ps(2) pq r show False by simp
    qed
    then have "\<not> sublist old (c # p)"
      using ps(3) pq by (simp add: sublist_Cons_right)
    moreover have "c # cs = join old ((c # p) # qs)"
      using ps(2) pq by (simp add: join_cons_char)
    moreover have "replace old [] (c # cs) = concat ((c # p) # qs)"
      using False \<open>old \<noteq> []\<close> ps(4) pq by simp
    ultimately show ?thesis
      using ps(3) pq by (intro exI [of _ "(c # p) # qs"]) simp
  qed
qed

lemma split_no_sep: "sep \<notin> set t \<Longrightarrow> split sep t = [t]"
  by (induction t) auto

lemma last_split_append:
  assumes "sep \<notin> set t"
  shows "last (split sep (s @ sep # t)) = t"
proof (induction s)
  case Nil
  with assms show ?case by (simp add: split_no_sep)
next
  case (Cons a s)
  obtain f fs where sp: "split sep (s @ sep # t) = f # fs"
    using split_not_Nil [of sep "s @ sep # t"] by (cases "split sep (s @ sep # t)") auto
  have "fs \<noteq> []"
  proof
    assume "fs = []"
    with sp have "s @ sep # t = f" by (simp add: split_single)
    moreover from sp \<open>fs = []\<close> last_split_no_sep [of sep "s @ sep # t"] have "sep \<notin> set f"
      by simp
    ultimately show False by auto
  qed
  with sp Cons show ?case by auto
qed

lemma replace_absent: "old \<noteq> [] \<Longrightarrow> hd old \<notin> set s \<Longrightarrow> replace old new s = s"
  by (induction s) (auto simp: prefix_def Cons_eq_append_conv)

lemma length_py: "length (py s) = length s"
  by (simp add: py_def)

lemma repo_name_of_long_url: "repo_name_of long_url = replicate 300 97"
proof -
  have 1: "last (split slash long_url) = replicate 300 97"
    unfolding long_url_def by (rule last_split_append) (simp add: slash_def)
  have 2: "replace (py ''.git'') [] (replicate 300 97) = replicate 300 97"
    by (rule replace_absent) (simp_all add: py_def)
  from 1 2 show ?thesis by (simp add: repo_name_of_def)
qed

lemma repo_name_missing: "repo_name_of (py ''https://github.com/user/missing.git'') = py ''missing''"
  by (simp add: repo_name_of_def py_def slash_def)

lemma repo_name_repo: "repo_name_of (py ''https://github.com/user/repo.git'') = py ''repo''"
  by (simp add: repo_name_of_def py_def slash_def)

lemma py_eq_iff: "py s = py t \<longleftrightarrow> s = t"
  by (simp add: py_def inj_map_eq_map inj_on_def)

text \<open>
  Claim C10. The repository name is the last \<open>/\<close>-separated segment of the URL with every
  occurrence of \<open>.git\<close> removed, wherever it stands: the segment \<open>seg\<close> is what follows the
  last \<open>/\<close> of the URL (the whole URL when it has none), it is cut at its occurrences of
  \<open>.git\<close> into pieces \<open>ps\<close> that hold no further occurrence, and the name is the
  pieces put together again without the separators. The output file is
  \<open>output_dir / (name + ".arch.md")\<close>.
\<close>

theorem repo_name_removes_every_git:
  "\<exists>seg ps. (repo_url = seg \<or> (\<exists>pre. repo_url = pre @ slash # seg)) \<and> slash \<notin> set seg
      \<and> ps \<noteq> [] \<and> seg = join (py ''.git'') ps \<and> (\<forall>p\<in>set ps. \<not> sublist (py ''.git'') p)
      \<and> repo_name_of repo_url = concat ps
      \<and> output_file_of output_dir repo_url = output_dir @ [concat ps @ py ''.arch.md'']"
proof -
  let ?seg = "last (split slash repo_url)"
  have "py ''.git'' \<noteq> []" by (simp add: py_def)
  from replace_pieces [OF this, of ?seg]
  obtain ps where ps: "ps \<noteq> []" "?seg = join (py ''.git'') ps"
    "\<forall>p\<in>set ps. \<not> sublist (py ''.git'') p" "replace (py ''.git'') [] ?seg = concat ps"
    by blast
  show ?thesis
    using last_split_suffix [of repo_url slash] last_split_no_sep [of slash repo_url] ps
    unfolding repo_name_of_def output_file_of_def
    by (intro exI [of _ ?seg] exI [of _ ps]) simp
qed

text \<open>
  The URL of the claim's example: \<open>.git\<close> in the middle of \<open>my.github-tools\<close> is excised.
\<close>

theorem repo_name_removes_every_git_witness:
  "repo_name_of (py ''https://github.com/user/my.github-tools'') = py ''myhub-tools''
   \<and> output_file_of [py ''temp''] (py ''https://github.com/user/my.github-tools'')
       = [py ''temp'', py ''myhub-tools.arch.md'']
   \<and> (\<exists>seg ps. (py ''https://github.com/user/my.github-tools'' = seg
                  \<or> (\<exists>pre. py ''https://github.com/user/my.github-tools'' = pre @ slash # seg))
         \<and> slash \<notin> set seg
         \<and> ps \<noteq> [] \<and> seg = join (py ''.git'') ps \<and> (\<forall>p\<in>set ps. \<not> sublist (py ''.git'') p)
         \<and> repo_name_of (py ''https://github.com/user/my.github-tools'') = concat ps
         \<and> output_file_of [py ''temp''] (py ''https://github.com/user/my.github-tools'')
             = [py ''temp''] @ [concat ps @ py ''.arch.md''])"
proof -
  have name: "repo_name_of (py ''https://github.com/user/my.github-tools'') = py ''myhub-tools''"
    by code_simp
  have out: "output_file_of [py ''temp''] (py ''https://github.com/user/my.github-tools'')
      = [py ''temp'', py ''myhub-tools.arch.md'']"
    by code_simp
  from name out
    repo_name_removes_every_git [of "py ''https://github.com/user/my.github-tools''" "[py ''temp'']"]
  show ?thesis by blast
qed

section \<open>The orchestrator: errors and cleanup\<close>

declare walk_dir.simps [simp del]

lemma pipeline_success:
  "pipeline os api_key repo_url repo_type output_dir w = (Inr res, w') \<Longrightarrow>
     res = \<lparr>success = True, repo_name = repo_name_of repo_url,
            output_file = Some (output_file_of output_dir repo_url), error = None\<rparr>"
  unfolding pipeline_def
  by (auto split: prod.splits sum.splits if_splits json.splits option.splits)

lemma analyze_repository_returns:
  "fst (analyze_repository os api_key repo_url repo_type output_dir w) = Inr r
     \<longleftrightarrow> fst (os_mkdir os (clone_dir_of output_dir repo_url) w) = None
         \<and> r = (case fst (pipeline os api_key repo_url repo_type output_dir
                  (snd (os_mkdir os (clone_dir_of output_dir repo_url) w))) of
                 Inl e \<Rightarrow> \<lparr>success = False, repo_name = repo_name_of repo_url,
                       output_file = None, error = Some (message e)\<rparr>
                | Inr res \<Rightarrow> res)"
  unfolding analyze_repository_def
  by (auto split: prod.splits option.splits sum.splits)

lemma repo_name_of_result:
  "fst (analyze_repository os api_key repo_url repo_type output_dir w) = Inr r
     \<Longrightarrow> repo_name r = repo_name_of repo_url"
  unfolding analyze_repository_def
  by (auto split: prod.splits option.splits sum.splits dest: pipeline_success)

lemma analyze_each_in_turn:
  assumes "\<forall>(name, repo_config) \<in> set repos.
             map_of repo_config (py ''url'') \<noteq> None \<and> map_of repo_config (py ''type'') \<noteq> None"
    and "\<forall>i<length repos.
           fst (os_mkdir os (clone_dir_of output_dir (url_of (snd (repos ! i))))
                  (worlds_before os api_key output_dir repos w ! i)) = None"
  shows "\<exists>rs. fst (analyze_each os api_key output_dir repos acc w) = Inr (acc @ rs)
           \<and> length rs = length repos
           \<and> (\<forall>i<length repos.
                 fst (analyze_repository os api_key (url_of (snd (repos ! i)))
                        (type_of (snd (repos ! i))) output_dir
                        (worlds_before os api_key output_dir repos w ! i)) = Inr (rs ! i))"
  using assms
proof (induction repos arbitrary: acc w)
  case Nil
  then show ?case by simp
next
  case (Cons entry rest)
  obtain name cfg where entry: "entry = (name, cfg)" by (cases entry)
  from Cons.prems(1) entry obtain url ty where
    u: "map_of cfg (py ''url'') = Some url" and t: "map_of cfg (py ''type'') = Some ty"
    by auto
  then have ut: "url_of cfg = url" "type_of cfg = ty"
    by (simp_all add: url_of_def type_of_def)
  from Cons.prems(2) [rule_format, of 0] entry ut
  have "fst (os_mkdir os (clone_dir_of output_dir url) w) = None"
    by simp
  then obtain r where r: "fst (analyze_repository os api_key url ty output_dir w) = Inr r"
    by (simp add: analyze_repository_returns)
  then obtain w' where a: "analyze_repository os api_key url ty output_dir w = (Inr r, w')"
    by (cases "analyze_repository os api_key url ty output_dir w") auto
  have worlds: "worlds_before os api_key output_dir (entry # rest) w
                  = w # worlds_before os api_key output_dir rest w'"
    using entry ut a by simp
  have rest1: "\<forall>(name, repo_config) \<in> set rest.
             map_of repo_config (py ''url'') \<noteq> None \<and> map_of repo_config (py ''type'') \<noteq> None"
    using Cons.prems(1) by simp
  have rest2: "\<forall>i<length rest.
           fst (os_mkdir os (clone_dir_of output_dir (url_of (snd (rest ! i))))
                  (worlds_before os api_key output_dir rest w' ! i)) = None"
  proof (intro allI impI)
    fix i assume "i < length rest"
    with Cons.prems(2) [rule_format, of "Suc i"] worlds
    show "fst (os_mkdir os (clone_dir_of output_dir (url_of (snd (rest ! i))))
                  (worlds_before os api_key output_dir rest w' ! i)) = None"
      by simp
  qed
  from Cons.IH [OF rest1 rest2, of "acc @ [r]"]
  obtain rs where rs:
    "fst (analyze_each os api_key output_dir rest (acc @ [r]) w') = Inr ((acc @ [r]) @ rs)"
    "length rs = length rest"
    "\<forall>i<length rest.
       fst (analyze_repository os api_key (url_of (snd (rest ! i)))
              (type_of (snd (rest ! i))) output_dir
              (worlds_before os api_key output_dir rest w' ! i)) = Inr (rs ! i)"
    by blast
  have 1: "fst (analyze_each os api_key output_dir (entry # rest) acc w) = Inr (acc @ (r # rs))"
    using entry u t a rs(1) by simp
  have 2: "length (r # rs) = length (entry # rest)"
    using rs(2) by simp
  have 3: "\<forall>i<length (entry # rest).
       fst (analyze_repository os api_key (url_of (snd ((entry # rest) ! i)))
              (type_of (snd ((entry # rest) ! i))) output_dir
              (worlds_before os api_key output_dir (entry # rest) w ! i)) = Inr ((r # rs) ! i)"
  proof (intro allI impI)
    fix i assume i: "i < length (entry # rest)"
    show "fst (analyze_repository os api_key (url_of (snd ((entry # rest) ! i)))
              (type_of (snd ((entry # rest) ! i))) output_dir
              (worlds_before os api_key output_dir (entry # rest) w ! i)) = Inr ((r # rs) ! i)"
    proof (cases i)
      case 0
      with entry ut r worlds show ?thesis by simp
    next
      case (Suc j)
      with i rs(3) worlds show ?thesis by simp
    qed
  qed
  from 1 2 3 show ?case by blast
qed

subsection \<open>The example world\<close>

lemma example_mkdir:
  "os_mkdir example_os p w =
     (if list_ex (\<lambda>n. 255 < length n) p
      then (Some (Exn OSError (py ''[Errno 36] File name too long'')), w) else (None, p # w))"
  by (simp add: example_os_def)

lemma example_exists: "os_exists example_os p w = (p \<in> set w)"
  by (simp add: example_os_def)

lemma example_rmtree: "os_rmtree example_os p w = filter (\<lambda>q. \<not> prefix p q) w"
  by (simp add: example_os_def)

lemma stuck_mkdir: "os_mkdir stuck_os = os_mkdir example_os"
  by (simp add: stuck_os_def)

lemma stuck_exists: "os_exists stuck_os = os_exists example_os"
  by (simp add: stuck_os_def)

lemma stuck_rmtree: "os_rmtree stuck_os p w = w"
  by (simp add: stuck_os_def)

lemma pipeline_missing_stuck:
  "pipeline stuck_os (py ''key'') (py ''https://github.com/user/missing.git'') (py ''backend'')
     [py ''temp''] w
   = (Inl (Exn PlainException (py ''Git clone failed: fatal: repository not found'')), w)"
  by (simp add: pipeline_def stuck_os_def example_os_def py_def sublist_Cons_right)

lemma pipeline_missing:
  "pipeline example_os (py ''key'') (py ''https://github.com/user/missing.git'') (py ''backend'')
     [py ''temp''] w
   = (Inl (Exn PlainException (py ''Git clone failed: fatal: repository not found'')), w)"
  by (simp add: pipeline_def example_os_def py_def sublist_Cons_right)

lemma analyze_missing:
  "analyze_repository example_os (py ''key'') (py ''https://github.com/user/missing.git'')
          (py ''backend'') [py ''temp''] []
     = (Inr \<lparr>success = False, repo_name = py ''missing'', output_file = None,
            error = Some (py ''Git clone failed: fatal: repository not found'')\<rparr>, [])"
  by (simp add: analyze_repository_def pipeline_missing repo_name_missing clone_dir_of_def
        length_py example_mkdir example_exists example_rmtree)

lemma example_fields:
  "os_git_clone example_os url dir w =
     (if sublist (py ''missing'') url
      then (Inr \<lparr>returncode = 128, stdout = [], stderr = py ''fatal: repository not found''\<rparr>, w)
      else (Inr \<lparr>returncode = 0, stdout = [], stderr = []\<rparr>, (dir @ [py ''README.md'']) # w))"
  "os_load_json example_os p w = Inl (Exn OSError (py ''[Errno 2] No such file or directory''))"
  "os_iterdir example_os p w = Inr (map last (filter (\<lambda>q. q \<noteq> [] \<and> butlast q = p) w))"
  "os_is_dir example_os p w = (p \<in> set w \<and> 46 \<notin> set (last p))"
  "os_stat_error example_os p w = None"
  "os_glob example_os p pat w = Inr []"
  "os_read_text example_os p w =
     (if p \<in> set w then Inr (py ''# Readme'')
      else Inl (Exn OSError (py ''[Errno 2] No such file or directory'')))"
  "os_write_request example_os prompt w = (Inr [py ''tmp'', py ''request.json''], w)"
  "os_curl example_os key file w =
     (Inr \<lparr>returncode = 0, stdout = good_stdout, stderr = []\<rparr>, w)"
  "os_unlink example_os p w = w"
  "os_write_text example_os p text w = (None, p # w)"
  "json_loads example_os s =
     (if s = good_stdout then Inr good_response
      else if s = tool_use_stdout then Inr tool_use_response
      else if s = py ''5'' then Inr (JInt 5)
      else if s = py ''{}'' then Inr (JObject [])
      else Inl (Exn JSONDecodeError (py ''Expecting value'')))"
  "py_str example_os x =
      (if x = JInt 5 then py ''5'' else if x = JObject [] then py ''{}'' else [])"
  by (simp_all add: example_os_def)

lemmas walk_dir_top = walk_dir.simps [of _ _ 3 _ "[]" 0]

lemmas example_eval =
  pipeline_def clone_dir_of_def output_file_of_def repo_name_of_def
  load_prompts_config_def build_file_tree_def walk_dir_top
  sorted_items_def entry_key_def path_is_dir_def path_exists_def except_permission_error_def
  read_key_files_def read_pattern_def record_file_def common_files_def
  call_claude_api_def prompt_parts_def investigation_parts_def extract_text_def
  good_response_def example_fields example_exists example_rmtree sublist_Cons_right
  ignored_names_def star_def slash_def py_def

lemma pipeline_repo:
  "pipeline example_os (py ''key'') (py ''https://github.com/user/repo.git'') (py ''backend'')
     [py ''temp''] [[py ''temp'', py ''clone_repo''], [py ''temp'']]
   = (Inr \<lparr>success = True, repo_name = py ''repo'',
            output_file = Some [py ''temp'', py ''repo.arch.md''], error = None\<rparr>,
      [[py ''temp'', py ''repo.arch.md''], [py ''temp'', py ''clone_repo'', py ''README.md''],
       [py ''temp'', py ''clone_repo''], [py ''temp'']])"
  by (simp add: example_eval)


lemma analyze_missing_temp:
  "analyze_repository example_os (py ''key'') (py ''https://github.com/user/missing.git'')
          (py ''backend'') [py ''temp''] [[py ''temp'']]
     = (Inr \<lparr>success = False, repo_name = py ''missing'', output_file = None,
            error = Some (py ''Git clone failed: fatal: repository not found'')\<rparr>, [[py ''temp'']])"
  by (simp add: analyze_repository_def pipeline_missing repo_name_missing clone_dir_of_def
        length_py example_mkdir example_exists example_rmtree)

lemma analyze_repo_temp:
  "analyze_repository example_os (py ''key'') (py ''https://github.com/user/repo.git'')
          (py ''backend'') [py ''temp''] [[py ''temp'']]
     = (Inr \<lparr>success = True, repo_name = py ''repo'',
            output_file = Some [py ''temp'', py ''repo.arch.md''], error = None\<rparr>,
        [[py ''temp'', py ''repo.arch.md''], [py ''temp'']])"
proof -
  have dir: "clone_dir_of [py ''temp''] (py ''https://github.com/user/repo.git'')
               = [py ''temp'', py ''clone_repo'']"
    by (simp add: clone_dir_of_def repo_name_of_def py_def slash_def)
  have mk: "os_mkdir example_os [py ''temp'', py ''clone_repo''] [[py ''temp'']]
              = (None, [[py ''temp'', py ''clone_repo''], [py ''temp'']])"
    by (simp add: example_mkdir length_py)
  show ?thesis
    unfolding analyze_repository_def dir mk
    by (simp add: pipeline_repo example_exists example_rmtree py_eq_iff)
qed

lemma two_repos_entries:
  "url_of (snd (two_repos ! 0)) = py ''https://github.com/user/missing.git''"
  "type_of (snd (two_repos ! 0)) = py ''backend''"
  "url_of (snd (two_repos ! Suc 0)) = py ''https://github.com/user/repo.git''"
  "type_of (snd (two_repos ! Suc 0)) = py ''backend''"
  by (simp_all add: two_repos_def url_of_def type_of_def py_eq_iff)

lemma worlds_before_two_repos:
  "worlds_before example_os (py ''key'') [py ''temp''] two_repos [[py ''temp'']]
     = [[[py ''temp'']], [[py ''temp'']]]"
proof -
  have "url_of [(py ''url'', py ''https://github.com/user/missing.git''),
                (py ''type'', py ''backend'')] = py ''https://github.com/user/missing.git''"
    "type_of [(py ''url'', py ''https://github.com/user/missing.git''),
                (py ''type'', py ''backend'')] = py ''backend''"
    by (simp_all add: url_of_def type_of_def py_eq_iff)
  then show ?thesis
    by (simp add: two_repos_def analyze_missing_temp)
qed

lemma analyze_all_two_repos:
  "fst (analyze_all_repositories example_os (py ''key'') [py ''temp''] two_repos [])
     = Inr [\<lparr>success = False, repo_name = py ''missing'', output_file = None,
              error = Some (py ''Git clone failed: fatal: repository not found'')\<rparr>,
            \<lparr>success = True, repo_name = py ''repo'',
              output_file = Some [py ''temp'', py ''repo.arch.md''], error = None\<rparr>]"
proof -
  have mk: "os_mkdir example_os [py ''temp''] [] = (None, [[py ''temp'']])"
    by (simp add: example_mkdir length_py)
  have u: "map_of [(py ''url'', x), (py ''type'', y)] (py ''url'') = Some x"
    "map_of [(py ''url'', x), (py ''type'', y)] (py ''type'') = Some y" for x y :: pystr
    by (simp_all add: py_eq_iff)
  show ?thesis
    unfolding analyze_all_repositories_def mk two_repos_def
    by (simp add: u py_eq_iff analyze_missing_temp analyze_repo_temp)
qed

lemma catalog_fields:
  "os_exists catalog_os p w = (p \<in> set w)"
  "os_load_json catalog_os p w =
     (if p = [py ''prompts'', py ''shared'', py ''prompts.json''] \<and> p \<in> set w
      then Inr shared_catalog
      else Inl (Exn OSError (py ''[Errno 2] No such file or directory'')))"
  by (simp_all add: catalog_os_def example_exists)

text \<open>
  Claim C1, as amended. When the clone directory has been made, the call returns a result
  whatever happens afterwards: an exception raised by any later step (clone, catalog,
  tree, key files, model call, writing the document) becomes the failed result that
  carries its message, and a run without exception returns the successful result.
  (An exception of \<open>mkdir\<close> itself is raised before the \<open>try\<close> statement.)
\<close>

theorem pipeline_errors_become_results:
  assumes "fst (os_mkdir os (clone_dir_of output_dir repo_url) w) = None"
  shows "\<exists>r. fst (analyze_repository os api_key repo_url repo_type output_dir w) = Inr r \<and>
     (case fst (pipeline os api_key repo_url repo_type output_dir
                  (snd (os_mkdir os (clone_dir_of output_dir repo_url) w))) of
        Inl e \<Rightarrow> r = \<lparr>success = False, repo_name = repo_name_of repo_url,
                       output_file = None, error = Some (message e)\<rparr>
      | Inr res \<Rightarrow> r = res \<and> success res \<and> error res = None)"
proof -
  obtain w0 where mk: "os_mkdir os (clone_dir_of output_dir repo_url) w = (None, w0)"
    using assms by (cases "os_mkdir os (clone_dir_of output_dir repo_url) w") auto
  obtain outcome w1 where p: "pipeline os api_key repo_url repo_type output_dir w0 = (outcome, w1)"
    by (cases "pipeline os api_key repo_url repo_type output_dir w0") auto
  show ?thesis
  proof (cases outcome)
    case (Inl e)
    with mk p show ?thesis by (simp add: analyze_repository_def)
  next
    case (Inr res)
    with p pipeline_success have "success res \<and> error res = None" by fastforce
    with Inr mk p show ?thesis by (simp add: analyze_repository_def)
  qed
qed

text \<open>
  The theorem at a clone that fails: the result is the failed one with git's message.
\<close>

theorem pipeline_errors_become_results_witness:
  "fst (os_mkdir example_os
         (clone_dir_of [py ''temp''] (py ''https://github.com/user/missing.git'')) []) = None
   \<and> fst (analyze_repository example_os (py ''key'') (py ''https://github.com/user/missing.git'')
           (py ''backend'') [py ''temp''] [])
       = Inr \<lparr>success = False, repo_name = py ''missing'', output_file = None,
              error = Some (py ''Git clone failed: fatal: repository not found'')\<rparr>"
proof -
  have mk: "fst (os_mkdir example_os
         (clone_dir_of [py ''temp''] (py ''https://github.com/user/missing.git'')) []) = None"
    by (simp add: example_os_def clone_dir_of_def repo_name_missing length_py)
  from pipeline_errors_become_results [OF mk, of "py ''key''" "py ''backend''"]
  show ?thesis
    using mk by (auto simp: pipeline_missing repo_name_missing)
qed



text \<open>
  Claim C1 as stated fails: for a URL whose last segment is too long for a directory
  name, \<open>mkdir\<close> raises before the \<open>try\<close> statement and the exception leaves
  \<open>analyze_repository\<close>.
\<close>

theorem mkdir_error_propagates:
  "fst (analyze_repository example_os (py ''key'') long_url (py ''backend'') [py ''temp''] [])
     = Inl (Exn OSError (py ''[Errno 36] File name too long''))"
  by (simp add: analyze_repository_def clone_dir_of_def repo_name_of_long_url example_os_def length_py)

text \<open>
  Claim C2, as amended. Whenever the call returns, on the success path and on every
  failure path, the clone directory does not exist afterwards, provided that
  \<open>rmtree\<close> does remove it: with \<open>ignore_errors=True\<close> a removal that fails is passed
  over in silence.
\<close>

theorem clone_dir_removed_when_rmtree_removes:
  assumes "fst (analyze_repository os api_key repo_url repo_type output_dir w) = Inr r"
    and "\<forall>w'. \<not> os_exists os (clone_dir_of output_dir repo_url)
                  (os_rmtree os (clone_dir_of output_dir repo_url) w')"
  shows "\<not> os_exists os (clone_dir_of output_dir repo_url)
            (snd (analyze_repository os api_key repo_url repo_type output_dir w))"
  using assms unfolding analyze_repository_def
  by (auto split: prod.splits option.splits)

text \<open>
  The theorem on a failure path of the example world, where \<open>rmtree\<close> removes the tree.
\<close>

theorem clone_dir_removed_when_rmtree_removes_witness:
  "fst (analyze_repository example_os (py ''key'') (py ''https://github.com/user/missing.git'')
          (py ''backend'') [py ''temp''] [])
     = Inr \<lparr>success = False, repo_name = py ''missing'', output_file = None,
            error = Some (py ''Git clone failed: fatal: repository not found'')\<rparr>
   \<and> (\<forall>w'. \<not> os_exists example_os
                 (clone_dir_of [py ''temp''] (py ''https://github.com/user/missing.git''))
                 (os_rmtree example_os
                    (clone_dir_of [py ''temp''] (py ''https://github.com/user/missing.git'')) w'))
   \<and> \<not> os_exists example_os
         (clone_dir_of [py ''temp''] (py ''https://github.com/user/missing.git''))
         (snd (analyze_repository example_os (py ''key'')
                 (py ''https://github.com/user/missing.git'') (py ''backend'') [py ''temp''] []))"
proof -
  have r: "fst (analyze_repository example_os (py ''key'')
                 (py ''https://github.com/user/missing.git'') (py ''backend'') [py ''temp''] [])
     = Inr \<lparr>success = False, repo_name = py ''missing'', output_file = None,
            error = Some (py ''Git clone failed: fatal: repository not found'')\<rparr>"
    by (simp add: analyze_missing)
  have rm: "\<forall>w'. \<not> os_exists example_os
                 (clone_dir_of [py ''temp''] (py ''https://github.com/user/missing.git''))
                 (os_rmtree example_os
                    (clone_dir_of [py ''temp''] (py ''https://github.com/user/missing.git'')) w')"
    by (simp add: example_exists example_rmtree)
  from clone_dir_removed_when_rmtree_removes [OF r rm] r rm show ?thesis by blast
qed

text \<open>
  Claim C2 as stated fails: where \<open>rmtree\<close> cannot remove the tree, the call returns
  and the clone directory is still there.
\<close>

theorem clone_dir_left_behind:
  "fst (analyze_repository stuck_os (py ''key'') (py ''https://github.com/user/missing.git'')
          (py ''backend'') [py ''temp''] [])
     = Inr \<lparr>success = False, repo_name = py ''missing'', output_file = None,
            error = Some (py ''Git clone failed: fatal: repository not found'')\<rparr>
   \<and> os_exists stuck_os (clone_dir_of [py ''temp''] (py ''https://github.com/user/missing.git''))
       (snd (analyze_repository stuck_os (py ''key'') (py ''https://github.com/user/missing.git'')
          (py ''backend'') [py ''temp''] []))"
  by (simp add: analyze_repository_def pipeline_missing_stuck repo_name_missing clone_dir_of_def
        length_py stuck_mkdir stuck_exists stuck_rmtree example_mkdir example_exists)

text \<open>
  Claim C3, as amended. When the \<open>mkdir\<close> of the output directory does not raise, every
  entry has its \<open>url\<close> and \<open>type\<close>, and the \<open>mkdir\<close> of each repository's clone directory
  does not raise in the state of the world in which that repository is reached, the
  batch driver returns exactly one result per entry, in the order of the entries: the
  result at each position is the result of \<open>analyze_repository\<close> on the entry at that
  position, run in the state its predecessors have left, whether those have succeeded
  or failed.
\<close>

theorem batch_one_result_per_entry:
  assumes "fst (os_mkdir os output_dir w) = None"
    and "\<forall>(name, repo_config) \<in> set repos.
           map_of repo_config (py ''url'') \<noteq> None \<and> map_of repo_config (py ''type'') \<noteq> None"
    and "\<forall>i<length repos.
           fst (os_mkdir os (clone_dir_of output_dir (url_of (snd (repos ! i))))
                  (worlds_before os api_key output_dir repos
                     (snd (os_mkdir os output_dir w)) ! i)) = None"
  shows "\<exists>results. fst (analyze_all_repositories os api_key output_dir repos w) = Inr results
           \<and> length results = length repos
           \<and> (\<forall>i<length repos.
                 fst (analyze_repository os api_key (url_of (snd (repos ! i)))
                        (type_of (snd (repos ! i))) output_dir
                        (worlds_before os api_key output_dir repos
                           (snd (os_mkdir os output_dir w)) ! i)) = Inr (results ! i)
                 \<and> repo_name (results ! i) = repo_name_of (url_of (snd (repos ! i))))"
proof -
  obtain w0 where mk: "os_mkdir os output_dir w = (None, w0)"
    using assms(1) by (cases "os_mkdir os output_dir w") auto
  from analyze_each_in_turn [OF assms(2), of os output_dir api_key w0 "[]"] assms(3) mk
  obtain rs where rs: "fst (analyze_each os api_key output_dir repos [] w0) = Inr rs"
    "length rs = length repos"
    "\<forall>i<length repos.
       fst (analyze_repository os api_key (url_of (snd (repos ! i)))
              (type_of (snd (repos ! i))) output_dir
              (worlds_before os api_key output_dir repos w0 ! i)) = Inr (rs ! i)"
    by auto
  from rs(3) have "\<forall>i<length repos. repo_name (rs ! i) = repo_name_of (url_of (snd (repos ! i)))"
    by (auto dest: repo_name_of_result)
  with mk rs show ?thesis by (auto simp: analyze_all_repositories_def)
qed

text \<open>
  The theorem on the batch of two: the first repository fails, the second is analysed
  all the same, in the state the first has left, and the results stand in the order of
  the entries.
\<close>

theorem batch_one_result_per_entry_witness:
  "fst (os_mkdir example_os [py ''temp''] []) = None
   \<and> worlds_before example_os (py ''key'') [py ''temp''] two_repos
        (snd (os_mkdir example_os [py ''temp''] [])) = [[[py ''temp'']], [[py ''temp'']]]
   \<and> (\<exists>results. fst (analyze_all_repositories example_os (py ''key'') [py ''temp''] two_repos [])
                    = Inr results
          \<and> length results = length two_repos
          \<and> fst (analyze_repository example_os (py ''key'')
                   (py ''https://github.com/user/repo.git'') (py ''backend'') [py ''temp'']
                   [[py ''temp'']]) = Inr (results ! 1))
   \<and> fst (analyze_all_repositories example_os (py ''key'') [py ''temp''] two_repos [])
     = Inr [\<lparr>success = False, repo_name = py ''missing'', output_file = None,
              error = Some (py ''Git clone failed: fatal: repository not found'')\<rparr>,
            \<lparr>success = True, repo_name = py ''repo'',
              output_file = Some [py ''temp'', py ''repo.arch.md''], error = None\<rparr>]"
proof -
  have mk: "os_mkdir example_os [py ''temp''] [] = (None, [[py ''temp'']])"
    by (simp add: example_mkdir length_py)
  then have h1: "fst (os_mkdir example_os [py ''temp''] []) = None"
    by simp
  have h2: "\<forall>(name, repo_config) \<in> set two_repos.
              map_of repo_config (py ''url'') \<noteq> None \<and> map_of repo_config (py ''type'') \<noteq> None"
    by (simp add: two_repos_def py_def)
  have worlds: "worlds_before example_os (py ''key'') [py ''temp''] two_repos
        (snd (os_mkdir example_os [py ''temp''] [])) = [[[py ''temp'']], [[py ''temp'']]]"
    by (simp add: mk worlds_before_two_repos)
  have h3: "\<forall>i<length two_repos.
           fst (os_mkdir example_os (clone_dir_of [py ''temp''] (url_of (snd (two_repos ! i))))
                  (worlds_before example_os (py ''key'') [py ''temp''] two_repos
                     (snd (os_mkdir example_os [py ''temp''] [])) ! i)) = None"
  proof (intro allI impI)
    fix i assume "i < length two_repos"
    then have "i = 0 \<or> i = Suc 0" by (auto simp: two_repos_def)
    then show "fst (os_mkdir example_os (clone_dir_of [py ''temp''] (url_of (snd (two_repos ! i))))
                  (worlds_before example_os (py ''key'') [py ''temp''] two_repos
                     (snd (os_mkdir example_os [py ''temp''] [])) ! i)) = None"
      unfolding worlds
      by (auto simp: two_repos_entries clone_dir_of_def repo_name_of_def example_mkdir
            py_def slash_def)
  qed
  from batch_one_result_per_entry [OF h1 h2 h3]
  obtain results where results:
    "fst (analyze_all_repositories example_os (py ''key'') [py ''temp''] two_repos []) = Inr results"
    "length results = length two_repos"
    "\<forall>i<length two_repos.
        fst (analyze_repository example_os (py ''key'') (url_of (snd (two_repos ! i)))
               (type_of (snd (two_repos ! i))) [py ''temp'']
               (worlds_before example_os (py ''key'') [py ''temp''] two_repos
                  (snd (os_mkdir example_os [py ''temp''] [])) ! i)) = Inr (results ! i)
        \<and> repo_name (results ! i) = repo_name_of (url_of (snd (two_repos ! i)))"
    by blast
  have len: "length two_repos = 2"
    by (simp add: two_repos_def)
  from results(3) [rule_format, of "Suc 0"]
  have "fst (analyze_repository example_os (py ''key'')
               (py ''https://github.com/user/repo.git'') (py ''backend'') [py ''temp'']
               [[py ''temp'']]) = Inr (results ! 1)"
    unfolding worlds by (simp add: two_repos_entries len)
  with results(1,2) h1 worlds analyze_all_two_repos show ?thesis by blast
qed

text \<open>
  Claim C3 as stated fails: the \<open>mkdir\<close> of the first repository raises, the exception
  leaves the loop, and the batch ends without a result for either entry.
\<close>

theorem batch_stops_at_mkdir_error:
  "fst (analyze_all_repositories example_os (py ''key'') [py ''temp''] long_repos [])
     = Inl (Exn OSError (py ''[Errno 36] File name too long''))"
  by (simp add: analyze_all_repositories_def long_repos_def analyze_repository_def
        clone_dir_of_def repo_name_of_long_url example_mkdir length_py py_eq_iff)

text \<open>
  Claim C5, as amended. The catalog is \<open>prompts/<type>/prompts.json\<close> when the directory
  \<open>prompts/<type>\<close> exists and \<open>prompts/shared/prompts.json\<close> when that directory does not
  exist. When the file so chosen is absent the catalog is the empty prompt list and nothing
  is raised; when it is there and holds a dict whose \<open>prompts\<close> is a list, it is the catalog.
\<close>

theorem prompt_catalog_resolution:
  "(os_exists os [py ''prompts'', repo_type] w \<longrightarrow>
      \<not> os_exists os [py ''prompts'', repo_type, py ''prompts.json''] w \<longrightarrow>
      load_prompts_config os w repo_type = Inr (JObject [(py ''prompts'', JArray [])]))
   \<and> (\<not> os_exists os [py ''prompts'', repo_type] w \<longrightarrow>
      \<not> os_exists os [py ''prompts'', py ''shared'', py ''prompts.json''] w \<longrightarrow>
      load_prompts_config os w repo_type = Inr (JObject [(py ''prompts'', JArray [])]))
   \<and> (\<forall>cfg kv. os_load_json os
          (if os_exists os [py ''prompts'', repo_type] w
           then [py ''prompts'', repo_type, py ''prompts.json'']
           else [py ''prompts'', py ''shared'', py ''prompts.json'']) w = Inr cfg \<longrightarrow>
        os_exists os
          (if os_exists os [py ''prompts'', repo_type] w
           then [py ''prompts'', repo_type, py ''prompts.json'']
           else [py ''prompts'', py ''shared'', py ''prompts.json'']) w \<longrightarrow>
        cfg = JObject kv \<longrightarrow>
        (\<exists>xs. map_of kv (py ''prompts'') = Some (JArray xs)) \<longrightarrow>
        load_prompts_config os w repo_type = Inr cfg)
   \<and> py_get (JObject [(py ''prompts'', JArray [])]) (py ''prompts'') (JArray []) = Inr (JArray [])"
  unfolding load_prompts_config_def
  by (auto simp: Let_def)

text \<open>
  The theorem in three worlds: the type's directory without a catalog, no \<open>prompts\<close>
  directory at all, and the shared catalog alone.
\<close>

theorem prompt_catalog_resolution_witness:
  "load_prompts_config catalog_os ([py ''prompts'', py ''backend''] # shared_only) (py ''backend'')
     = Inr (JObject [(py ''prompts'', JArray [])])
   \<and> load_prompts_config catalog_os [] (py ''backend'') = Inr (JObject [(py ''prompts'', JArray [])])
   \<and> load_prompts_config catalog_os shared_only (py ''backend'') = Inr shared_catalog"
proof -
  have 1: "os_exists catalog_os [py ''prompts'', py ''backend'']
             ([py ''prompts'', py ''backend''] # shared_only)"
    "\<not> os_exists catalog_os [py ''prompts'', py ''backend'', py ''prompts.json'']
             ([py ''prompts'', py ''backend''] # shared_only)"
    by (simp_all add: catalog_fields shared_only_def py_eq_iff)
  have 2: "\<not> os_exists catalog_os [py ''prompts'', py ''backend''] []"
    "\<not> os_exists catalog_os [py ''prompts'', py ''shared'', py ''prompts.json''] []"
    by (simp_all add: catalog_fields)
  have 3: "\<not> os_exists catalog_os [py ''prompts'', py ''backend''] shared_only"
    "os_exists catalog_os [py ''prompts'', py ''shared'', py ''prompts.json''] shared_only"
    "os_load_json catalog_os [py ''prompts'', py ''shared'', py ''prompts.json''] shared_only
       = Inr shared_catalog"
    by (simp_all add: catalog_fields shared_only_def py_eq_iff)
  have 4: "\<exists>xs. map_of [(py ''prompts'',
               JArray [JObject [(py ''name'', JString (py ''security'')),
                                (py ''description'', JString (py ''Review the security model''))]])]
             (py ''prompts'') = Some (JArray xs)"
    by simp
  from prompt_catalog_resolution [of catalog_os "py ''backend''"
         "[py ''prompts'', py ''backend''] # shared_only"] 1
  have a: "load_prompts_config catalog_os ([py ''prompts'', py ''backend''] # shared_only)
             (py ''backend'') = Inr (JObject [(py ''prompts'', JArray [])])"
    by blast
  from prompt_catalog_resolution [of catalog_os "py ''backend''" "[]"] 2
  have b: "load_prompts_config catalog_os [] (py ''backend'')
             = Inr (JObject [(py ''prompts'', JArray [])])"
    by blast
  from prompt_catalog_resolution [of catalog_os "py ''backend''" shared_only] 3 4
  have c: "load_prompts_config catalog_os shared_only (py ''backend'') = Inr shared_catalog"
    unfolding shared_catalog_def by (simp add: 3)
  from a b c show ?thesis by blast
qed

text \<open>
  Claim C5 as stated fails: the directory \<open>prompts/backend\<close> exists and holds no
  \<open>prompts.json\<close>, the shared catalog exists and loads, and the catalog used is the empty
  list: the fallback looks at the directory of the type, not at its catalog file.
\<close>

theorem type_directory_hides_shared_catalog:
  "os_exists catalog_os [py ''prompts'', py ''shared'', py ''prompts.json'']
     ([py ''prompts'', py ''backend''] # shared_only)
   \<and> os_load_json catalog_os [py ''prompts'', py ''shared'', py ''prompts.json'']
        ([py ''prompts'', py ''backend''] # shared_only) = Inr shared_catalog
   \<and> \<not> os_exists catalog_os [py ''prompts'', py ''backend'', py ''prompts.json'']
        ([py ''prompts'', py ''backend''] # shared_only)
   \<and> load_prompts_config catalog_os ([py ''prompts'', py ''backend''] # shared_only)
        (py ''backend'') = Inr (JObject [(py ''prompts'', JArray [])])"
  by (simp add: load_prompts_config_def catalog_fields shared_only_def py_eq_iff)

section \<open>The file tree\<close>

lemma except_permission_error_fst: "fst (except_permission_error piece) = fst piece"
  by (cases piece) (auto simp: except_permission_error_def split: option.splits)

lemma walk_dir_empty:
  "os_iterdir os path w = Inr [] \<Longrightarrow> walk_dir os w max_depth path pfx depth = ([], None)"
  by (subst walk_dir.simps) (simp add: sorted_items_def except_permission_error_def)

lemma same_structure_iterdir:
  "same_structure os w1 w2 \<Longrightarrow>
     (case (os_iterdir os p w1, os_iterdir os p w2) of
        (Inr names1, Inr names2) \<Rightarrow> mset names1 = mset names2 \<and> distinct names1
      | (Inl e1, Inl e2) \<Rightarrow> e1 = e2
      | _ \<Rightarrow> False)"
  by (simp add: same_structure_def)

lemma collect_member:
  "collect rs = Inr ls \<Longrightarrow> l \<in> set ls \<Longrightarrow> \<exists>xs. Inr xs \<in> set rs \<and> l \<in> set xs"
proof (induction rs arbitrary: ls)
  case Nil
  then show ?case by simp
next
  case (Cons r rs)
  show ?case
  proof (cases r)
    case (Inl e)
    with Cons.prems show ?thesis by simp
  next
    case (Inr xs)
    with Cons.prems obtain ms where ms: "collect rs = Inr ms" "ls = xs @ ms"
      by (auto split: sum.splits)
    with Cons.prems(2) have "l \<in> set xs \<or> l \<in> set ms" by simp
    then show ?thesis
    proof
      assume "l \<in> set xs"
      with Inr show ?thesis by auto
    next
      assume "l \<in> set ms"
      from Cons.IH [OF ms(1) this] show ?thesis by auto
    qed
  qed
qed

lemma collect_Inl_member: "collect rs = Inl e \<Longrightarrow> Inl e \<in> set rs"
proof (induction rs)
  case Nil
  then show ?case by simp
next
  case (Cons r rs)
  then show ?case by (cases r) (auto split: sum.splits)
qed

lemma collect_Inr_none: "collect rs = Inr ls \<Longrightarrow> Inl e \<notin> set rs"
proof (induction rs arbitrary: ls)
  case Nil
  then show ?case by simp
next
  case (Cons r rs)
  then show ?case by (cases r) (auto split: sum.splits)
qed

lemma collect_singletons: "collect (map (\<lambda>x. Inr [g x]) xs) = Inr (map g xs)"
  by (induction xs) simp_all

lemma sorted_keyed_same:
  assumes "mset names1 = mset names2" and "distinct names1"
  shows "sort_key fst (map (\<lambda>n. ((k n, n), path @ [n])) names1)
         = sort_key fst (map (\<lambda>n. ((k n, n), path @ [n])) names2)"
proof (rule sort_key_inj_key_eq)
  show "mset (map (\<lambda>n. ((k n, n), path @ [n])) names1)
          = mset (sort_key fst (map (\<lambda>n. ((k n, n), path @ [n])) names2))"
    using assms(1) by simp
  show "inj_on fst (set (map (\<lambda>n. ((k n, n), path @ [n])) names1))"
    by (auto simp: inj_on_def)
  show "sorted (map fst (sort_key fst (map (\<lambda>n. ((k n, n), path @ [n])) names2)))"
    by (rule sorted_sort_key)
qed

text \<open>
  The sorted entries of a directory do not depend on the order of the listing, when the
  entries whose \<open>is_dir\<close> raises all raise the same exception.
\<close>

lemma sorted_items_same:
  assumes perm: "mset names1 = mset names2" and dist: "distinct names1"
    and dirs: "\<And>p. path_is_dir os p w1 = path_is_dir os p w2"
    and agree: "\<And>n1 n2 e1 e2. n1 \<in> set names1 \<Longrightarrow> n2 \<in> set names1 \<Longrightarrow>
                  path_is_dir os (path @ [n1]) w1 = Inl e1 \<Longrightarrow>
                  path_is_dir os (path @ [n2]) w1 = Inl e2 \<Longrightarrow> e1 = e2"
  shows "sorted_items os w1 path names1 = sorted_items os w2 path names2"
proof -
  have keys: "entry_key os w2 x = entry_key os w1 x" for x
    by (simp add: entry_key_def dirs)
  from perm have sets: "set names2 = set names1"
    by (rule mset_eq_setD [symmetric])
  show ?thesis
  proof (cases "\<exists>n\<in>set names1. \<exists>e. path_is_dir os (path @ [n]) w1 = Inl e")
    case True
    then obtain n e where n: "n \<in> set names1" "path_is_dir os (path @ [n]) w1 = Inl e"
      by blast
    have raised: "collect (map (\<lambda>n. entry_key os w1 (path @ [n])) names) = Inl e"
      if names: "set names = set names1" for names
    proof (cases "collect (map (\<lambda>n. entry_key os w1 (path @ [n])) names)")
      case (Inl e')
      from collect_Inl_member [OF this] obtain n' where
        "n' \<in> set names" "entry_key os w1 (path @ [n']) = Inl e'"
        by auto
      then have "n' \<in> set names1" "path_is_dir os (path @ [n']) w1 = Inl e'"
        using names by (auto simp: entry_key_def split: sum.splits)
      with agree [OF this(1) n(1) this(2) n(2)] Inl show ?thesis by simp
    next
      case (Inr keyed)
      from collect_Inr_none [OF this, of e] n names show ?thesis
        by (auto simp: entry_key_def image_iff)
    qed
    from raised [of names1] raised [of names2] sets show ?thesis
      by (simp add: sorted_items_def keys)
  next
    case False
    define k where "k = (\<lambda>n. \<not> projr (path_is_dir os (path @ [n]) w1))"
    have key: "entry_key os w1 (path @ [n]) = Inr [((k n, n), path @ [n])]"
      if "n \<in> set names1" for n
      using False that by (cases "path_is_dir os (path @ [n]) w1") (auto simp: entry_key_def k_def)
    have keyed: "collect (map (\<lambda>n. entry_key os w1 (path @ [n])) names)
                   = Inr (map (\<lambda>n. ((k n, n), path @ [n])) names)"
      if names: "set names = set names1" for names
    proof -
      have "map (\<lambda>n. entry_key os w1 (path @ [n])) names
              = map (\<lambda>n. Inr [((k n, n), path @ [n])]) names"
        using names key by (intro map_cong refl) simp
      then show ?thesis by (simp only: collect_singletons)
    qed
    from keyed [of names1] keyed [of names2] sets sorted_keyed_same [OF perm dist, of k path]
    show ?thesis
      by (simp add: sorted_items_def keys)
  qed
qed

lemma sorted_items_member:
  assumes "sorted_items os w path names = Inr items" and "item \<in> set items"
  shows "\<exists>n\<in>set names. item = path @ [n]"
proof -
  from assms(1) obtain keyed where
    keyed: "collect (map (\<lambda>n. entry_key os w (path @ [n])) names) = Inr keyed"
    and items: "items = map snd (sort_key fst keyed)"
    by (auto simp: sorted_items_def split: sum.splits)
  from assms(2) items obtain key where "(key, item) \<in> set keyed"
    by auto
  from collect_member [OF keyed this] obtain xs where
    xs: "Inr xs \<in> (\<lambda>n. entry_key os w (path @ [n])) ` set names" "(key, item) \<in> set xs"
    by auto
  from xs(1) obtain n where "n \<in> set names" "Inr xs = entry_key os w (path @ [n])"
    by (rule imageE)
  with xs(2) have "n \<in> set names" "entry_key os w (path @ [n]) = Inr xs" "(key, item) \<in> set xs"
    by simp_all
  then show ?thesis
    by (auto simp: entry_key_def split: sum.splits)
qed

lemma run_all_member:
  "l \<in> set (fst (run_all rs)) \<Longrightarrow> \<exists>r\<in>set rs. l \<in> set (fst r)"
proof (induction rs rule: run_all.induct)
  case 1
  then show ?case by simp
next
  case (2 ls e rs)
  then show ?case by simp
next
  case (3 ls rs)
  then show ?case by (auto split: prod.splits)
qed

text \<open>
  Two walks over the same structure give the same lines and end alike, whatever the
  order of the listings, when the failures of \<open>is_dir\<close> inside one directory agree.
\<close>

lemma walk_dir_same:
  assumes "same_structure os w1 w2" and "is_dir_errors_agree os w1"
  shows "walk_dir os w1 max_depth path pfx depth = walk_dir os w2 max_depth path pfx depth"
  using assms
proof (induction os w1 max_depth path pfx depth rule: walk_dir.induct)
  case (1 os w max_depth path pfx depth)
  from "1.prems"(1) have dirs: "\<And>p. path_is_dir os p w = path_is_dir os p w2"
    by (simp add: same_structure_def)
  show ?case
  proof (cases "max_depth < depth")
    case True
    then show ?thesis by (simp add: walk_dir.simps [of _ _ max_depth path pfx depth])
  next
    case deep: False
    show ?thesis
    proof (cases "os_iterdir os path w")
      case (Inl e)
      with same_structure_iterdir [OF "1.prems"(1), of path] have "os_iterdir os path w2 = Inl e"
        by (cases "os_iterdir os path w2") auto
      with Inl show ?thesis by (simp add: walk_dir.simps [of _ _ max_depth path pfx depth])
    next
      case listed: (Inr names1)
      with same_structure_iterdir [OF "1.prems"(1), of path]
      obtain names2 where names2: "os_iterdir os path w2 = Inr names2"
        and perm: "mset names1 = mset names2" "distinct names1"
        by (cases "os_iterdir os path w2") auto
      have items_eq: "sorted_items os w path names1 = sorted_items os w2 path names2"
      proof (rule sorted_items_same [OF perm])
        show "path_is_dir os p w = path_is_dir os p w2" for p
          by (rule dirs)
        show "e1 = e2"
          if "n1 \<in> set names1" "n2 \<in> set names1" "path_is_dir os (path @ [n1]) w = Inl e1"
            "path_is_dir os (path @ [n2]) w = Inl e2" for n1 n2 e1 e2
          using "1.prems"(2) listed that unfolding is_dir_errors_agree_def by blast
      qed
      show ?thesis
      proof (cases "sorted_items os w path names1")
        case (Inl e)
        with items_eq have "sorted_items os w2 path names2 = Inl e" by simp
        with Inl listed names2 show ?thesis
          by (simp add: walk_dir.simps [of _ _ max_depth path pfx depth])
      next
        case sorted: (Inr items)
        with items_eq have sorted2: "sorted_items os w2 path names2 = Inr items" by simp
        define row1 where "row1 = (\<lambda>(i, item).
                      if last item \<in> set ignored_names then ([], None)
                      else
                        (let is_last = (i = length items - 1);
                             current_prefix = (if is_last then last_connector else mid_connector);
                             next_prefix = (if is_last then blank_prefix else bar_prefix)
                         in (case path_is_dir os item w of
                               Inl e \<Rightarrow> ([pfx @ current_prefix @ last item], Some e)
                             | Inr d \<Rightarrow>
                                 if d then
                                   (case walk_dir os w max_depth item (pfx @ next_prefix)
                                           (depth + 1) of
                                      (sub, r) \<Rightarrow> ((pfx @ current_prefix @ last item) # sub, r))
                                 else ([pfx @ current_prefix @ last item], None))))"
        define row2 where "row2 = (\<lambda>(i, item).
                      if last item \<in> set ignored_names then ([], None)
                      else
                        (let is_last = (i = length items - 1);
                             current_prefix = (if is_last then last_connector else mid_connector);
                             next_prefix = (if is_last then blank_prefix else bar_prefix)
                         in (case path_is_dir os item w2 of
                               Inl e \<Rightarrow> ([pfx @ current_prefix @ last item], Some e)
                             | Inr d \<Rightarrow>
                                 if d then
                                   (case walk_dir os w2 max_depth item (pfx @ next_prefix)
                                           (depth + 1) of
                                      (sub, r) \<Rightarrow> ((pfx @ current_prefix @ last item) # sub, r))
                                 else ([pfx @ current_prefix @ last item], None))))"
        have left: "walk_dir os w max_depth path pfx depth
                      = except_permission_error (run_all (map row1 (enumerate 0 items)))"
          unfolding row1_def
          by (simp only: walk_dir.simps [of os w max_depth path pfx depth] deep listed sorted
                if_False sum.case Let_def)
        have right: "walk_dir os w2 max_depth path pfx depth
                      = except_permission_error (run_all (map row2 (enumerate 0 items)))"
          unfolding row2_def
          by (simp only: walk_dir.simps [of os w2 max_depth path pfx depth] deep names2 sorted2
                if_False sum.case Let_def)
        have sub: "walk_dir os w max_depth item (pfx @ next_prefix) (depth + 1)
              = walk_dir os w2 max_depth item (pfx @ next_prefix) (depth + 1)"
          if "(i, item) \<in> set (enumerate 0 items)" "last item \<notin> set ignored_names"
            "next_prefix = (if i = length items - 1 then blank_prefix else bar_prefix)"
            "path_is_dir os item w = Inr True"
          for i item next_prefix
          using "1.IH" [OF deep listed sorted that(1) refl that(2) refl refl that(3) that(4)
                  TrueI "1.prems"] .
        have "row1 x = row2 x" if "x \<in> set (enumerate 0 items)" for x
        proof (cases x)
          case (Pair i item)
          show ?thesis
          proof (cases "path_is_dir os item w = Inr True \<and> last item \<notin> set ignored_names")
            case True
            then have d1: "path_is_dir os item w = Inr True"
              and keep: "last item \<notin> set ignored_names"
              by simp_all
            from d1 dirs [of item] have d2: "path_is_dir os item w2 = Inr True"
              by simp
            from that Pair have mem: "(i, item) \<in> set (enumerate 0 items)"
              by simp
            from sub [OF mem keep refl d1] show ?thesis
              by (simp add: Pair row1_def row2_def Let_def d1 d2 keep)
          next
            case other: False
            show ?thesis
            proof (cases "last item \<in> set ignored_names")
              case True
              then show ?thesis by (simp add: Pair row1_def row2_def)
            next
              case keep: False
              with other have no_dir: "path_is_dir os item w \<noteq> Inr True"
                by simp
              show ?thesis
              proof (cases "path_is_dir os item w")
                case (Inl e)
                with dirs [of item] have "path_is_dir os item w2 = Inl e"
                  by simp
                with Inl show ?thesis
                  by (simp add: Pair row1_def row2_def Let_def)
              next
                case (Inr d)
                with no_dir have d1: "path_is_dir os item w = Inr False"
                  by simp
                with dirs [of item] have "path_is_dir os item w2 = Inr False"
                  by simp
                with d1 show ?thesis
                  by (simp add: Pair row1_def row2_def Let_def)
              qed
            qed
          qed
        qed
        then have "map row1 (enumerate 0 items) = map row2 (enumerate 0 items)"
          by (intro map_cong refl)
        with left right show ?thesis by simp
      qed
    qed
  qed
qed

lemma tree_line_deeper:
  "tree_line (pfx @ u) name l \<Longrightarrow> u \<in> {bar_prefix, blank_prefix} \<Longrightarrow> tree_line pfx name l"
  unfolding tree_line_def
proof (elim exE conjE)
  fix units connector
  assume u: "u \<in> {bar_prefix, blank_prefix}" "set units \<subseteq> {bar_prefix, blank_prefix}"
    "connector \<in> {last_connector, mid_connector}"
    "l = (pfx @ u) @ concat units @ connector @ name"
  then have "set (u # units) \<subseteq> {bar_prefix, blank_prefix}"
    "l = pfx @ concat (u # units) @ connector @ name"
    by auto
  with u(3) show "\<exists>units connector. set units \<subseteq> {bar_prefix, blank_prefix}
     \<and> connector \<in> {last_connector, mid_connector} \<and> l = pfx @ concat units @ connector @ name"
    by blast
qed

text \<open>
  Every line the walk appends, whether it ends with an exception or not, shows an entry
  of a listed directory that is not ignored.
\<close>

lemma walk_dir_lines:
  assumes "l \<in> set (fst (walk_dir os w max_depth path pfx depth))"
  shows "\<exists>dir names name. os_iterdir os dir w = Inr names \<and> name \<in> set names
           \<and> name \<notin> set ignored_names \<and> tree_line pfx name l"
  using assms
proof (induction os w max_depth path pfx depth rule: walk_dir.induct)
  case (1 os w max_depth path pfx depth)
  show ?case
  proof (cases "max_depth < depth")
    case True
    with "1.prems" show ?thesis
      by (simp add: walk_dir.simps [of os w max_depth path pfx depth])
  next
    case deep: False
    show ?thesis
    proof (cases "os_iterdir os path w")
      case (Inl e)
      with deep "1.prems" show ?thesis
        by (simp add: walk_dir.simps [of os w max_depth path pfx depth]
              except_permission_error_fst)
    next
      case listed: (Inr names)
      show ?thesis
      proof (cases "sorted_items os w path names")
        case (Inl e)
        with deep listed "1.prems" show ?thesis
          by (simp add: walk_dir.simps [of os w max_depth path pfx depth]
                except_permission_error_fst)
      next
        case sorted: (Inr items)
        define row where "row = (\<lambda>(i, item).
                      if last item \<in> set ignored_names then ([], None)
                      else
                        (let is_last = (i = length items - 1);
                             current_prefix = (if is_last then last_connector else mid_connector);
                             next_prefix = (if is_last then blank_prefix else bar_prefix)
                         in (case path_is_dir os item w of
                               Inl e \<Rightarrow> ([pfx @ current_prefix @ last item], Some e)
                             | Inr d \<Rightarrow>
                                 if d then
                                   (case walk_dir os w max_depth item (pfx @ next_prefix)
                                           (depth + 1) of
                                      (sub, r) \<Rightarrow> ((pfx @ current_prefix @ last item) # sub, r))
                                 else ([pfx @ current_prefix @ last item], None))))"
        have "walk_dir os w max_depth path pfx depth
                = except_permission_error (run_all (map row (enumerate 0 items)))"
          unfolding row_def
          by (simp only: walk_dir.simps [of os w max_depth path pfx depth] deep listed sorted
                if_False sum.case Let_def)
        with "1.prems" have "l \<in> set (fst (run_all (map row (enumerate 0 items))))"
          by (simp add: except_permission_error_fst)
        from run_all_member [OF this]
        obtain i item where row: "l \<in> set (fst (row (i, item)))"
          and mem: "(i, item) \<in> set (enumerate 0 items)"
          by auto
        from mem have "item \<in> set items" by (auto simp: in_set_enumerate_eq)
        from sorted_items_member [OF sorted this]
        obtain n where n: "n \<in> set names" "item = path @ [n]"
          by auto
        from row have keep: "last item \<notin> set ignored_names"
          by (auto simp: row_def split: if_splits)
        define next_prefix where
          "next_prefix = (if i = length items - 1 then blank_prefix else bar_prefix)"
        define current_prefix where
          "current_prefix = (if i = length items - 1 then last_connector else mid_connector)"
        from row keep have "l = pfx @ current_prefix @ last item
            \<or> (path_is_dir os item w = Inr True
                \<and> l \<in> set (fst (walk_dir os w max_depth item (pfx @ next_prefix) (depth + 1))))"
          by (auto simp: row_def Let_def next_prefix_def current_prefix_def
              split: if_splits sum.splits prod.splits)
        then show ?thesis
        proof
          assume "l = pfx @ current_prefix @ last item"
          then have "tree_line pfx n l"
            unfolding tree_line_def using n
            by (intro exI [of _ "[]"] exI [of _ current_prefix]) (simp add: current_prefix_def)
          with listed n keep show ?thesis by auto
        next
          assume "path_is_dir os item w = Inr True
                \<and> l \<in> set (fst (walk_dir os w max_depth item (pfx @ next_prefix) (depth + 1)))"
          then have d: "path_is_dir os item w = Inr True"
            and sub: "l \<in> set (fst (walk_dir os w max_depth item (pfx @ next_prefix) (depth + 1)))"
            by auto
          from "1.IH" [OF deep listed sorted mem refl keep refl refl next_prefix_def d TrueI sub]
          obtain dir names' name where found: "os_iterdir os dir w = Inr names'"
            "name \<in> set names'" "name \<notin> set ignored_names" "tree_line (pfx @ next_prefix) name l"
            by blast
          from found(4) have "tree_line pfx name l"
            by (rule tree_line_deeper) (simp add: next_prefix_def)
          with found show ?thesis by blast
        qed
      qed
    qed
  qed
qed

lemma tree_line_unique_aux:
  assumes "set units1 \<subseteq> {bar_prefix, blank_prefix}" "set units2 \<subseteq> {bar_prefix, blank_prefix}"
    "c1 \<in> {last_connector, mid_connector}" "c2 \<in> {last_connector, mid_connector}"
    "concat units1 @ c1 @ n1 = concat units2 @ c2 @ n2"
  shows "n1 = n2"
  using assms
proof (induction units1 arbitrary: units2)
  case Nil
  show ?case
  proof (cases units2)
    case Nil
    with Nil.prems show ?thesis
      by (auto simp: last_connector_def mid_connector_def)
  next
    case (Cons u us)
    with Nil.prems show ?thesis
      by (auto simp: last_connector_def mid_connector_def bar_prefix_def blank_prefix_def)
  qed
next
  case (Cons u1 us1)
  show ?case
  proof (cases units2)
    case Nil
    with Cons.prems show ?thesis
      by (auto simp: last_connector_def mid_connector_def bar_prefix_def blank_prefix_def)
  next
    case (Cons u2 us2)
    with Cons.prems have "concat us1 @ c1 @ n1 = concat us2 @ c2 @ n2"
      by (auto simp: bar_prefix_def blank_prefix_def)
    with Cons.IH [of us2] Cons.prems Cons show ?thesis by simp
  qed
qed

lemma tree_line_unique: "tree_line [] n1 l \<Longrightarrow> tree_line [] n2 l \<Longrightarrow> n1 = n2"
  unfolding tree_line_def
  by (elim exE conjE) (rule tree_line_unique_aux, auto)

lemma build_file_tree_same:
  "same_structure os w1 w2 \<Longrightarrow> is_dir_errors_agree os w1 \<Longrightarrow>
     build_file_tree os w1 repo_dir = build_file_tree os w2 repo_dir"
  by (simp add: build_file_tree_def walk_dir_same)

lemma same_structure_listed: "same_structure example_os listed_one_way listed_other_way"
  unfolding same_structure_def
proof (intro conjI allI)
  fix p
  show "path_is_dir example_os p listed_one_way = path_is_dir example_os p listed_other_way"
    by (auto simp: path_is_dir_def example_fields listed_one_way_def listed_other_way_def)
  show "case (os_iterdir example_os p listed_one_way, os_iterdir example_os p listed_other_way) of
          (Inr names1, Inr names2) \<Rightarrow> mset names1 = mset names2 \<and> distinct names1
        | (Inl e1, Inl e2) \<Rightarrow> e1 = e2
        | _ \<Rightarrow> False"
    by (auto simp: example_fields listed_one_way_def listed_other_way_def py_eq_iff)
qed

lemma example_errors_agree: "is_dir_errors_agree example_os w"
  by (simp add: is_dir_errors_agree_def path_is_dir_def example_fields)

lemma tree_listed_one_way:
  "build_file_tree example_os listed_one_way [py ''repo'']
     = Inr (mid_connector @ py ''src'' @ [10] @ last_connector @ py ''README.md'')"
  by (simp add: build_file_tree_def walk_dir_top walk_dir_empty example_fields
        sorted_items_def entry_key_def path_is_dir_def except_permission_error_def
        listed_one_way_def ignored_names_def py_def)

lemma two_links_fields:
  "os_iterdir two_links_os p w = Inr (map last (filter (\<lambda>q. q \<noteq> [] \<and> butlast q = p) w))"
  "os_is_dir two_links_os p w = (p \<in> set w \<and> 46 \<notin> set (last p))"
  "os_stat_error two_links_os p w =
     (if p = [py ''repo'', py ''private'']
      then Some (Exn PermissionError (py ''[Errno 13] Permission denied''))
      else if p = [py ''repo'', py ''deep'']
      then Some (Exn OSError (py ''[Errno 36] File name too long''))
      else None)"
  by (simp_all add: two_links_os_def example_fields)

lemma same_structure_links: "same_structure two_links_os links_one_way links_other_way"
  unfolding same_structure_def
proof (intro conjI allI)
  fix p
  show "path_is_dir two_links_os p links_one_way = path_is_dir two_links_os p links_other_way"
    by (auto simp: path_is_dir_def two_links_fields links_one_way_def links_other_way_def)
  show "case (os_iterdir two_links_os p links_one_way, os_iterdir two_links_os p links_other_way) of
          (Inr names1, Inr names2) \<Rightarrow> mset names1 = mset names2 \<and> distinct names1
        | (Inl e1, Inl e2) \<Rightarrow> e1 = e2
        | _ \<Rightarrow> False"
    by (auto simp: two_links_fields links_one_way_def links_other_way_def py_eq_iff)
qed

text \<open>
  Claim C9, as amended. Over one directory structure in which the entries of a directory
  whose \<open>is_dir\<close> raises all raise the same exception, two runs end alike, with the same
  tree text or the same exception, in whatever order the system lists the entries of a
  directory at each run. Every line of a tree that is produced shows the name of exactly
  one entry, and that name is never one of the ignored names.
\<close>

theorem tree_deterministic_without_ignored:
  assumes "same_structure os w1 w2" and "is_dir_errors_agree os w1"
  shows "build_file_tree os w1 repo_dir = build_file_tree os w2 repo_dir
     \<and> (\<forall>lines. walk_dir os w1 3 repo_dir [] 0 = (lines, None) \<longrightarrow>
           build_file_tree os w1 repo_dir = Inr (join [10] lines)
           \<and> (\<forall>l\<in>set lines. (\<exists>name. tree_line [] name l)
                 \<and> (\<forall>name. tree_line [] name l \<longrightarrow> name \<notin> set ignored_names)))"
proof (intro conjI allI impI ballI)
  show "build_file_tree os w1 repo_dir = build_file_tree os w2 repo_dir"
    using assms by (rule build_file_tree_same)
next
  fix lines
  assume "walk_dir os w1 3 repo_dir [] 0 = (lines, None)"
  then show "build_file_tree os w1 repo_dir = Inr (join [10] lines)"
    by (simp add: build_file_tree_def)
next
  fix lines l
  assume "walk_dir os w1 3 repo_dir [] 0 = (lines, None)" and "l \<in> set lines"
  then have "l \<in> set (fst (walk_dir os w1 3 repo_dir [] 0))" by simp
  from walk_dir_lines [OF this] show "\<exists>name. tree_line [] name l" by blast
next
  fix lines l name
  assume "walk_dir os w1 3 repo_dir [] 0 = (lines, None)" and "l \<in> set lines"
    and t: "tree_line [] name l"
  then have "l \<in> set (fst (walk_dir os w1 3 repo_dir [] 0))" by simp
  from walk_dir_lines [OF this] obtain name' where
    "name' \<notin> set ignored_names" "tree_line [] name' l"
    by blast
  with t tree_line_unique show "name \<notin> set ignored_names" by blast
qed

text \<open>
  The theorem at a directory listed in two different orders: the same two lines.
\<close>

theorem tree_deterministic_without_ignored_witness:
  "same_structure example_os listed_one_way listed_other_way
   \<and> is_dir_errors_agree example_os listed_one_way
   \<and> os_iterdir example_os [py ''repo''] listed_one_way
        = Inr [py ''src'', py ''README.md'', py ''venv'']
   \<and> os_iterdir example_os [py ''repo''] listed_other_way
        = Inr [py ''venv'', py ''README.md'', py ''src'']
   \<and> build_file_tree example_os listed_one_way [py ''repo'']
        = Inr (mid_connector @ py ''src'' @ [10] @ last_connector @ py ''README.md'')
   \<and> build_file_tree example_os listed_other_way [py ''repo'']
        = Inr (mid_connector @ py ''src'' @ [10] @ last_connector @ py ''README.md'')"
proof -
  have lists: "os_iterdir example_os [py ''repo''] listed_one_way
        = Inr [py ''src'', py ''README.md'', py ''venv'']"
    "os_iterdir example_os [py ''repo''] listed_other_way
        = Inr [py ''venv'', py ''README.md'', py ''src'']"
    by (simp_all add: example_fields listed_one_way_def listed_other_way_def)
  from tree_deterministic_without_ignored [OF same_structure_listed example_errors_agree,
         of "[py ''repo'']"]
  have "build_file_tree example_os listed_one_way [py ''repo'']
          = build_file_tree example_os listed_other_way [py ''repo'']"
    by blast
  with tree_listed_one_way same_structure_listed example_errors_agree lists show ?thesis by simp
qed

text \<open>
  Claim C9 as stated fails. The directory holds two symbolic links whose \<open>is_dir\<close>
  raises, \<open>private\<close> a \<open>PermissionError\<close> and \<open>deep\<close> another \<open>OSError\<close>. The keys of
  \<open>sorted\<close> are computed in the order of the listing: when \<open>private\<close> is listed first the
  \<open>PermissionError\<close> is swallowed and the tree is the empty text, when \<open>deep\<close> is listed
  first its \<open>OSError\<close> leaves \<open>_build_file_tree\<close>.
\<close>

theorem tree_depends_on_listing_order:
  "same_structure two_links_os links_one_way links_other_way
   \<and> os_iterdir two_links_os [py ''repo''] links_one_way = Inr [py ''private'', py ''deep'']
   \<and> os_iterdir two_links_os [py ''repo''] links_other_way = Inr [py ''deep'', py ''private'']
   \<and> path_is_dir two_links_os [py ''repo'', py ''private''] links_one_way
        = Inl (Exn PermissionError (py ''[Errno 13] Permission denied''))
   \<and> path_is_dir two_links_os [py ''repo'', py ''deep''] links_one_way
        = Inl (Exn OSError (py ''[Errno 36] File name too long''))
   \<and> build_file_tree two_links_os links_one_way [py ''repo''] = Inr []
   \<and> build_file_tree two_links_os links_other_way [py ''repo'']
        = Inl (Exn OSError (py ''[Errno 36] File name too long''))"
proof -
  have lists: "os_iterdir two_links_os [py ''repo''] links_one_way
                 = Inr [py ''private'', py ''deep'']"
    "os_iterdir two_links_os [py ''repo''] links_other_way = Inr [py ''deep'', py ''private'']"
    by (simp_all add: two_links_fields links_one_way_def links_other_way_def)
  have dirs: "path_is_dir two_links_os [py ''repo'', py ''private''] w
        = Inl (Exn PermissionError (py ''[Errno 13] Permission denied''))"
    "path_is_dir two_links_os [py ''repo'', py ''deep''] w
        = Inl (Exn OSError (py ''[Errno 36] File name too long''))" for w
    by (simp_all add: path_is_dir_def two_links_fields py_eq_iff)
  have one: "build_file_tree two_links_os links_one_way [py ''repo''] = Inr []"
    by (simp add: build_file_tree_def walk_dir_top lists sorted_items_def entry_key_def dirs
          except_permission_error_def)
  have other: "build_file_tree two_links_os links_other_way [py ''repo'']
        = Inl (Exn OSError (py ''[Errno 36] File name too long''))"
    by (simp add: build_file_tree_def walk_dir_top lists sorted_items_def entry_key_def dirs
          except_permission_error_def)
  from same_structure_links lists dirs one other show ?thesis by simp
qed

text \<open>
  Claim C4 at a directory whose last entry in sorted order is ignored. The directory
  holds the subdirectories \<open>src\<close> and \<open>venv\<close>; \<open>venv\<close> is skipped, so \<open>src\<close> is the last
  entry rendered, and its line carries the connector of an entry that is not the last:
  \<open>is_last\<close> is computed from the length of the list before the ignored entries are
  skipped.
\<close>

theorem build_file_tree_last_entry_ignored:
  "os_iterdir example_os [py ''repo''] src_and_venv = Inr [py ''src'', py ''venv'']
   \<and> os_is_dir example_os [py ''repo'', py ''src''] src_and_venv
   \<and> os_is_dir example_os [py ''repo'', py ''venv''] src_and_venv
   \<and> os_iterdir example_os [py ''repo'', py ''src''] src_and_venv = Inr []
   \<and> build_file_tree example_os src_and_venv [py ''repo''] = Inr (mid_connector @ py ''src'')"
  by (simp add: build_file_tree_def walk_dir_top walk_dir_empty example_fields
        sorted_items_def entry_key_def path_is_dir_def except_permission_error_def
        src_and_venv_def ignored_names_def py_def)

section \<open>The model invoker\<close>

lemma extract_text_object:
  "extract_text os (JObject kv) =
     (case map_of kv (py ''content'') of
        None \<Rightarrow> Inl (api_error os (JObject kv))
      | Some content \<Rightarrow>
          (case py_len content of
             Inl e \<Rightarrow> Inl e
           | Inr n \<Rightarrow> if n > 0 then (case py_first content of Inl e \<Rightarrow> Inl e
                                     | Inr block \<Rightarrow> py_getitem block (py ''text''))
                      else Inl (api_error os (JObject kv))))"
proof (cases "map_of kv (py ''content'')")
  case None
  then have "py ''content'' \<notin> fst ` set kv" by (simp add: map_of_eq_None_iff)
  with None show ?thesis by (simp add: extract_text_def)
next
  case (Some content)
  then have "py ''content'' \<in> fst ` set kv" by (metis map_of_eq_None_iff option.distinct(1))
  with Some show ?thesis by (simp add: extract_text_def)
qed

lemma call_claude_api_sent:
  assumes "prompt_parts os name repo_type file_tree key_files prompts = Inr parts"
    and "os_write_request os (join [10] parts) w = (Inr request_file, w1)"
    and "os_curl os api_key request_file w1 = (Inr result, w2)"
  shows "fst (call_claude_api os api_key name repo_type file_tree key_files prompts w)
           = (case json_loads os (stdout result) of
                Inl e \<Rightarrow> Inl e
              | Inr response_data \<Rightarrow> extract_text os response_data)"
  using assms by (simp add: call_claude_api_def)

lemma answering_fields:
  "os_curl (answering_os out) key file w = (Inr \<lparr>returncode = 0, stdout = out, stderr = []\<rparr>, w)"
  "os_write_request (answering_os out) = os_write_request example_os"
  "os_unlink (answering_os out) = os_unlink example_os"
  "json_loads (answering_os out) = json_loads example_os"
  "py_str (answering_os out) = py_str example_os"
  by (simp_all add: answering_os_def)

lemma prompt_parts_no_prompts:
  "prompt_parts os name repo_type file_tree key_files (JArray [])
     = Inr (header_parts name repo_type file_tree @ key_file_parts key_files @ request_parts)"
  by (simp add: prompt_parts_def investigation_parts_def)

lemma stdout_distinct:
  "good_stdout \<noteq> tool_use_stdout" "good_stdout \<noteq> py ''5''" "good_stdout \<noteq> py ''{}''"
  "tool_use_stdout \<noteq> py ''5''" "tool_use_stdout \<noteq> py ''{}''" "py ''5'' \<noteq> py ''{}''"
  "py ''<html>'' \<noteq> good_stdout" "py ''<html>'' \<noteq> tool_use_stdout"
  "py ''<html>'' \<noteq> py ''5''" "py ''<html>'' \<noteq> py ''{}''"
  by (simp_all add: good_stdout_def tool_use_stdout_def py_def)

text \<open>
  Claim C6, as amended. Once the request is written and \<open>curl\<close> has returned: for a
  response that parses to a JSON object, the invoker returns the \<open>text\<close> of the first
  element of \<open>content\<close> when \<open>content\<close> is a list whose first element is an object with a
  \<open>text\<close> field; it fails with \<open>Claude API error:\<close> followed by the response when the
  object has no \<open>content\<close> or \<open>content\<close> has length 0; and a response that does not
  parse fails with the parser's exception.
\<close>

theorem call_claude_api_response:
  assumes "prompt_parts os name repo_type file_tree key_files prompts = Inr parts"
    and "os_write_request os (join [10] parts) w = (Inr request_file, w1)"
    and "os_curl os api_key request_file w1 = (Inr result, w2)"
  shows
    "(\<forall>kv block blocks t.
        json_loads os (stdout result) = Inr (JObject kv) \<longrightarrow>
        map_of kv (py ''content'') = Some (JArray (JObject block # blocks)) \<longrightarrow>
        map_of block (py ''text'') = Some t \<longrightarrow>
        fst (call_claude_api os api_key name repo_type file_tree key_files prompts w) = Inr t)
     \<and> (\<forall>kv. json_loads os (stdout result) = Inr (JObject kv) \<longrightarrow>
          (map_of kv (py ''content'') = None
           \<or> (\<exists>content. map_of kv (py ''content'') = Some content \<and> py_len content = Inr 0)) \<longrightarrow>
          fst (call_claude_api os api_key name repo_type file_tree key_files prompts w)
            = Inl (Exn PlainException (py ''Claude API error: '' @ py_str os (JObject kv))))
     \<and> (\<forall>e. json_loads os (stdout result) = Inl e \<longrightarrow>
          fst (call_claude_api os api_key name repo_type file_tree key_files prompts w)
            = Inl e)"
  unfolding call_claude_api_sent [OF assms]
  by (auto simp: extract_text_object api_error_def format_value_def)


text \<open>
  The theorem at three answers of the service: the good response, the empty object
  and a page of HTML.
\<close>

theorem call_claude_api_response_witness:
  "fst (call_claude_api (answering_os good_stdout) (py ''key'') (py ''repo'') (py ''backend'')
          [] [] (JArray []) []) = Inr (JString (py ''# Architecture''))
   \<and> fst (call_claude_api (answering_os (py ''{}'')) (py ''key'') (py ''repo'') (py ''backend'')
          [] [] (JArray []) []) = Inl (Exn PlainException (py ''Claude API error: {}''))
   \<and> fst (call_claude_api (answering_os (py ''<html>'')) (py ''key'') (py ''repo'') (py ''backend'')
          [] [] (JArray []) []) = Inl (Exn JSONDecodeError (py ''Expecting value''))"
proof -
  let ?parts = "header_parts (py ''repo'') (py ''backend'') [] @ key_file_parts [] @ request_parts"
  have sent: "prompt_parts (answering_os out) (py ''repo'') (py ''backend'') [] [] (JArray [])
                = Inr ?parts"
    "os_write_request (answering_os out) (join [10] ?parts) []
                = (Inr [py ''tmp'', py ''request.json''], [])"
    "os_curl (answering_os out) (py ''key'') [py ''tmp'', py ''request.json''] []
                = (Inr \<lparr>returncode = 0, stdout = out, stderr = []\<rparr>, [])" for out
    by (simp_all add: prompt_parts_no_prompts answering_fields example_fields)
  have good: "json_loads (answering_os good_stdout)
                (stdout \<lparr>returncode = 0, stdout = good_stdout, stderr = []\<rparr>)
              = Inr (JObject [(py ''content'',
                        JArray [JObject [(py ''type'', JString (py ''text'')),
                                         (py ''text'', JString (py ''# Architecture''))]])])"
    by (simp add: answering_fields example_fields good_response_def)
  have empty: "json_loads (answering_os (py ''{}''))
                (stdout \<lparr>returncode = 0, stdout = py ''{}'', stderr = []\<rparr>) = Inr (JObject [])"
    by (simp add: answering_fields example_fields stdout_distinct stdout_distinct [symmetric])
  have html: "json_loads (answering_os (py ''<html>''))
                (stdout \<lparr>returncode = 0, stdout = py ''<html>'', stderr = []\<rparr>)
              = Inl (Exn JSONDecodeError (py ''Expecting value''))"
    by (simp add: answering_fields example_fields stdout_distinct)
  from call_claude_api_response [OF sent [of good_stdout]] good
  have 1: "fst (call_claude_api (answering_os good_stdout) (py ''key'') (py ''repo'')
            (py ''backend'') [] [] (JArray []) []) = Inr (JString (py ''# Architecture''))"
    by (simp add: py_eq_iff)
  from call_claude_api_response [OF sent [of "py ''{}''"]] empty
  have 2: "fst (call_claude_api (answering_os (py ''{}'')) (py ''key'') (py ''repo'')
            (py ''backend'') [] [] (JArray []) [])
           = Inl (Exn PlainException (py ''Claude API error: {}''))"
    by (simp add: answering_fields example_fields py_def)
  from call_claude_api_response [OF sent [of "py ''<html>''"]] html
  have 3: "fst (call_claude_api (answering_os (py ''<html>'')) (py ''key'') (py ''repo'')
            (py ''backend'') [] [] (JArray []) [])
           = Inl (Exn JSONDecodeError (py ''Expecting value''))"
    by simp
  from 1 2 3 show ?thesis by blast
qed

text \<open>
  Claim C6 as stated fails at two responses. The response \<open>5\<close> has no \<open>content\<close> field,
  and the call fails with the \<open>TypeError\<close> of \<open>'content' in 5\<close>, whose message does not
  hold the response. A response whose \<open>content\<close> is a non-empty list with a first block
  without \<open>text\<close> makes the call fail with \<open>KeyError\<close>, where the claim has it return.
\<close>

theorem response_shapes_outside_the_claim:
  "fst (call_claude_api (answering_os (py ''5'')) (py ''key'') (py ''repo'') (py ''backend'')
          [] [] (JArray []) [])
     = Inl (Exn TypeError (py ''argument of type '' @ [39] @ py ''int'' @ [39]
                           @ py '' is not iterable''))
   \<and> py_str (answering_os (py ''5'')) (JInt 5) = py ''5''
   \<and> \<not> sublist (py ''5'') (py ''argument of type '' @ [39] @ py ''int'' @ [39]
                             @ py '' is not iterable'')
   \<and> fst (call_claude_api (answering_os tool_use_stdout) (py ''key'') (py ''repo'')
          (py ''backend'') [] [] (JArray []) [])
     = Inl (Exn KeyError ([39] @ py ''text'' @ [39]))"
proof -
  have 1: "fst (call_claude_api (answering_os (py ''5'')) (py ''key'') (py ''repo'')
             (py ''backend'') [] [] (JArray []) [])
     = Inl (Exn TypeError (py ''argument of type '' @ [39] @ py ''int'' @ [39]
                           @ py '' is not iterable''))"
    by (simp add: call_claude_api_def prompt_parts_no_prompts answering_fields example_fields
          stdout_distinct stdout_distinct [symmetric] extract_text_def)
  have 2: "py_str (answering_os (py ''5'')) (JInt 5) = py ''5''"
    by (simp add: answering_fields example_fields)
  have 3: "\<not> sublist (py ''5'') (py ''argument of type '' @ [39] @ py ''int'' @ [39]
                             @ py '' is not iterable'')"
    by (simp add: py_def sublist_Cons_right)
  have 4: "fst (call_claude_api (answering_os tool_use_stdout) (py ''key'') (py ''repo'')
          (py ''backend'') [] [] (JArray []) [])
     = Inl (Exn KeyError ([39] @ py ''text'' @ [39]))"
    by (simp add: call_claude_api_def prompt_parts_no_prompts answering_fields example_fields
          stdout_distinct stdout_distinct [symmetric] extract_text_def tool_use_response_def
          py_eq_iff)
  from 1 2 3 4 show ?thesis by blast
qed

section \<open>The prompt assembler\<close>

lemma render_prompt_object:
  "render_prompt os (JObject kv) = Inr (py ''- '' @ entry_text os kv)"
  by (simp add: render_prompt_def entry_text_def format_value_def split: option.splits)

lemma collect_rendered:
  assumes "\<forall>p\<in>set ps. \<exists>kv. p = JObject kv"
  shows "\<exists>lines. collect (map (\<lambda>prompt. case render_prompt os prompt of
                                    Inl e \<Rightarrow> Inl e | Inr line \<Rightarrow> Inr [line]) ps) = Inr lines
           \<and> length lines = length ps
           \<and> (\<forall>i<length ps. \<forall>kv. ps ! i = JObject kv
                 \<longrightarrow> lines ! i = py ''- '' @ entry_text os kv)"
  using assms
proof (induction ps)
  case Nil
  then show ?case by simp
next
  case (Cons p ps)
  then obtain kv where p: "p = JObject kv" by auto
  from Cons obtain lines where l:
    "collect (map (\<lambda>prompt. case render_prompt os prompt of
                      Inl e \<Rightarrow> Inl e | Inr line \<Rightarrow> Inr [line]) ps) = Inr lines"
    "length lines = length ps"
    "\<forall>i<length ps. \<forall>kv. ps ! i = JObject kv \<longrightarrow> lines ! i = py ''- '' @ entry_text os kv"
    by auto
  have "\<forall>i<length (p # ps). \<forall>kv'. (p # ps) ! i = JObject kv'
          \<longrightarrow> ((py ''- '' @ entry_text os kv) # lines) ! i = py ''- '' @ entry_text os kv'"
    using l(3) p by (auto simp: nth_Cons split: nat.splits)
  with l(1,2) p show ?case
    by (intro exI [of _ "(py ''- '' @ entry_text os kv) # lines"])
       (simp add: render_prompt_object)
qed

lemma header_not_in_fixed_parts:
  "investigation_header \<notin> set (header_parts name repo_type file_tree)"
  "investigation_header \<notin> set (key_file_parts key_files)"
  "investigation_header \<notin> set request_parts"
  by (auto simp: investigation_header_def header_parts_def key_file_parts_def request_parts_def
        py_def)

text \<open>
  Claim C8. For a list of catalog entries (dicts), the section \<open>Specific Investigation
  Points\<close> is appended if and only if the list is not empty: its header is among the parts
  of the prompt exactly then. The section lists the first five entries at most, one line
  each, and the line of an entry shows its description, or its name when the description
  is absent.
\<close>

theorem investigation_section_iff_prompts:
  assumes "\<forall>p\<in>set (take 5 ps). \<exists>kv. p = JObject kv"
  shows "\<exists>lines parts.
           investigation_parts os (JArray ps)
             = Inr (if ps = [] then [] else investigation_header # lines)
         \<and> length lines = min 5 (length ps)
         \<and> (\<forall>i<min 5 (length ps). \<forall>kv. ps ! i = JObject kv
               \<longrightarrow> lines ! i = py ''- '' @ entry_text os kv)
         \<and> prompt_parts os name repo_type file_tree key_files (JArray ps) = Inr parts
         \<and> parts = header_parts name repo_type file_tree @ key_file_parts key_files
                    @ request_parts @ (if ps = [] then [] else investigation_header # lines)
         \<and> (investigation_header \<in> set parts \<longleftrightarrow> ps \<noteq> [])"
proof -
  from collect_rendered [OF assms, of os] obtain lines where l:
    "collect (map (\<lambda>prompt. case render_prompt os prompt of
                      Inl e \<Rightarrow> Inl e | Inr line \<Rightarrow> Inr [line]) (take 5 ps)) = Inr lines"
    "length lines = length (take 5 ps)"
    "\<forall>i<length (take 5 ps). \<forall>kv. take 5 ps ! i = JObject kv
        \<longrightarrow> lines ! i = py ''- '' @ entry_text os kv"
    by blast
  have inv: "investigation_parts os (JArray ps)
               = Inr (if ps = [] then [] else investigation_header # lines)"
    using l(1) by (simp add: investigation_parts_def)
  have len: "length lines = min 5 (length ps)"
    using l(2) by (simp add: min.commute)
  have each: "\<forall>i<min 5 (length ps). \<forall>kv. ps ! i = JObject kv
               \<longrightarrow> lines ! i = py ''- '' @ entry_text os kv"
    using l(3) by simp
  let ?parts = "header_parts name repo_type file_tree @ key_file_parts key_files
                    @ request_parts @ (if ps = [] then [] else investigation_header # lines)"
  have pp: "prompt_parts os name repo_type file_tree key_files (JArray ps) = Inr ?parts"
    by (simp add: prompt_parts_def inv)
  have "investigation_header \<in> set ?parts \<longleftrightarrow> ps \<noteq> []"
    using header_not_in_fixed_parts by auto
  with inv len each pp show ?thesis by blast
qed


text \<open>
  The theorem at the catalog of six: five lines, the third from an entry with neither
  description nor name, and the sixth entry is not listed.
\<close>

theorem investigation_section_iff_prompts_witness:
  "investigation_parts example_os (JArray six_prompts)
     = Inr [investigation_header, py ''- Review the security model'', py ''- api'',
            py ''- Unknown'', py ''- Describe the data flow'', py ''- deploy'']
   \<and> investigation_parts example_os (JArray []) = Inr []
   \<and> (\<exists>lines parts.
           investigation_parts example_os (JArray six_prompts)
             = Inr (if six_prompts = [] then [] else investigation_header # lines)
         \<and> length lines = min 5 (length six_prompts)
         \<and> prompt_parts example_os (py ''repo'') (py ''backend'') [] [] (JArray six_prompts)
             = Inr parts
         \<and> (investigation_header \<in> set parts \<longleftrightarrow> six_prompts \<noteq> []))"
proof -
  have h: "\<forall>p\<in>set (take 5 six_prompts). \<exists>kv. p = JObject kv"
    by (simp add: six_prompts_def)
  have a: "investigation_parts example_os (JArray six_prompts)
     = Inr [investigation_header, py ''- Review the security model'', py ''- api'',
            py ''- Unknown'', py ''- Describe the data flow'', py ''- deploy'']"
    by (simp add: investigation_parts_def six_prompts_def render_prompt_def format_value_def
          py_def)
  have b: "investigation_parts example_os (JArray []) = Inr []"
    by (simp add: investigation_parts_def)
  from investigation_section_iff_prompts [OF h, of example_os "py ''repo''" "py ''backend''" "[]" "[]"]
  have c: "\<exists>lines parts.
           investigation_parts example_os (JArray six_prompts)
             = Inr (if six_prompts = [] then [] else investigation_header # lines)
         \<and> length lines = min 5 (length six_prompts)
         \<and> prompt_parts example_os (py ''repo'') (py ''backend'') [] [] (JArray six_prompts)
             = Inr parts
         \<and> (investigation_header \<in> set parts \<longleftrightarrow> six_prompts \<noteq> [])"
    by blast
  from a b c show ?thesis by blast
qed

section \<open>The key files\<close>

lemma record_file_lookup:
  "map_of (record_file os w file k kf) key = Some v \<Longrightarrow>
     (key = k \<and> (\<exists>text. os_read_text os file w = Inr text \<and> v = take 5000 text))
     \<or> map_of kf key = Some v"
  by (auto simp: record_file_def update_conv' split: sum.splits if_splits)

lemma record_file_keys:
  "fst ` set (record_file os w file k kf) =
     (case os_read_text os file w of Inl e \<Rightarrow> fst ` set kf | Inr text \<Rightarrow> insert k (fst ` set kf))"
  using dom_update [of k _ kf]
  by (auto simp: record_file_def dom_map_of_conv_image_fst [symmetric] update_conv'
      split: sum.splits)

lemma fold_record_lookup:
  "map_of (fold (\<lambda>name. record_file os w (f name) (g name)) names kf) key = Some v \<Longrightarrow>
     (\<exists>name\<in>set names. key = g name
        \<and> (\<exists>text. os_read_text os (f name) w = Inr text \<and> v = take 5000 text))
     \<or> map_of kf key = Some v"
proof (induction names arbitrary: kf)
  case Nil
  then show ?case by simp
next
  case (Cons n names)
  from Cons.IH [of "record_file os w (f n) (g n) kf"] Cons.prems
  show ?case by (auto dest: record_file_lookup)
qed

lemma fold_record_keys:
  "fst ` set (fold (\<lambda>name. record_file os w (f name) (g name)) names kf) =
     fst ` set kf \<union> {g name | name. name \<in> set names \<and> (\<exists>text. os_read_text os (f name) w = Inr text)}"
proof (induction names arbitrary: kf)
  case Nil
  then show ?case by simp
next
  case (Cons n names)
  show ?case
    unfolding fold_simps Cons.IH record_file_keys
    by (auto split: sum.splits)
qed

text \<open>
  A pattern is processed by reading the files it matches one after the other; it raises
  what the search for the matches raises.
\<close>

lemma read_pattern_matches:
  "read_pattern os w repo_dir pattern kf =
     (case pattern_matches os w repo_dir pattern of
        Inl e \<Rightarrow> Inl e
      | Inr matches \<Rightarrow> Inr (fold (\<lambda>m. record_file os w (snd m) (fst m)) matches kf))"
  unfolding read_pattern_def pattern_matches_def Let_def
  by (auto simp: fold_map comp_def split: sum.splits)

lemma fold_matches_lookup:
  "map_of (fold (\<lambda>m. record_file os w (snd m) (fst m)) matches kf) key = Some v \<Longrightarrow>
     (\<exists>path body. (key, path) \<in> set matches \<and> os_read_text os path w = Inr body
        \<and> v = take 5000 body)
     \<or> map_of kf key = Some v"
  using fold_record_lookup [of os w snd fst matches kf key v] by force

lemma fold_matches_keys:
  "fst ` set (fold (\<lambda>m. record_file os w (snd m) (fst m)) matches kf) =
     fst ` set kf \<union> {key. \<exists>path body. (key, path) \<in> set matches
                            \<and> os_read_text os path w = Inr body}"
  unfolding fold_record_keys by force

lemma read_patterns_lookup:
  "read_patterns os w repo_dir patterns kf = Inr out \<Longrightarrow> map_of out key = Some v \<Longrightarrow>
     (\<exists>pattern matches path body. pattern \<in> set patterns
        \<and> pattern_matches os w repo_dir pattern = Inr matches
        \<and> (key, path) \<in> set matches
        \<and> os_read_text os path w = Inr body \<and> v = take 5000 body)
     \<or> map_of kf key = Some v"
proof (induction patterns arbitrary: kf)
  case Nil
  then show ?case by simp
next
  case (Cons p patterns)
  from Cons.prems(1) obtain matches where
    m: "pattern_matches os w repo_dir p = Inr matches"
    and rest: "read_patterns os w repo_dir patterns
                 (fold (\<lambda>m. record_file os w (snd m) (fst m)) matches kf) = Inr out"
    by (auto simp: read_pattern_matches split: sum.splits)
  from Cons.IH [OF rest Cons.prems(2)] show ?case
  proof
    assume "\<exists>pattern matches path body. pattern \<in> set patterns
        \<and> pattern_matches os w repo_dir pattern = Inr matches
        \<and> (key, path) \<in> set matches
        \<and> os_read_text os path w = Inr body \<and> v = take 5000 body"
    then show ?thesis by auto
  next
    assume "map_of (fold (\<lambda>m. record_file os w (snd m) (fst m)) matches kf) key = Some v"
    from fold_matches_lookup [OF this] m show ?thesis by auto
  qed
qed

lemma read_patterns_keys:
  "read_patterns os w repo_dir patterns kf = Inr out \<Longrightarrow>
     fst ` set out =
       fst ` set kf \<union> {key. \<exists>pattern matches path body. pattern \<in> set patterns
                          \<and> pattern_matches os w repo_dir pattern = Inr matches
                          \<and> (key, path) \<in> set matches
                          \<and> os_read_text os path w = Inr body}"
proof (induction patterns arbitrary: kf)
  case Nil
  then show ?case by simp
next
  case (Cons p patterns)
  from Cons.prems(1) obtain matches where
    m: "pattern_matches os w repo_dir p = Inr matches"
    and rest: "read_patterns os w repo_dir patterns
                 (fold (\<lambda>m. record_file os w (snd m) (fst m)) matches kf) = Inr out"
    by (auto simp: read_pattern_matches split: sum.splits)
  show ?case
    unfolding Cons.IH [OF rest] fold_matches_keys using m by auto
qed

lemma read_patterns_returns:
  "(\<exists>out. read_patterns os w repo_dir patterns kf = Inr out) \<longleftrightarrow>
     (\<forall>pattern\<in>set patterns. \<exists>matches. pattern_matches os w repo_dir pattern = Inr matches)"
proof (induction patterns arbitrary: kf)
  case Nil
  then show ?case by simp
next
  case (Cons p patterns)
  show ?case
  proof (cases "pattern_matches os w repo_dir p")
    case (Inl e)
    then show ?thesis by (simp add: read_pattern_matches)
  next
    case (Inr matches)
    with Cons.IH [of "fold (\<lambda>m. record_file os w (snd m) (fst m)) matches kf"]
    show ?thesis by (simp add: read_pattern_matches)
  qed
qed

lemma read_patterns_raises:
  "read_patterns os w repo_dir patterns kf = Inl e \<Longrightarrow>
     \<exists>pattern\<in>set patterns. pattern_matches os w repo_dir pattern = Inl e"
proof (induction patterns arbitrary: kf)
  case Nil
  then show ?case by simp
next
  case (Cons p patterns)
  show ?case
  proof (cases "pattern_matches os w repo_dir p")
    case (Inl e')
    with Cons.prems show ?thesis by (simp add: read_pattern_matches)
  next
    case (Inr matches)
    with Cons.prems have "read_patterns os w repo_dir patterns
            (fold (\<lambda>m. record_file os w (snd m) (fst m)) matches kf) = Inl e"
      by (simp add: read_pattern_matches)
    from Cons.IH [OF this] show ?thesis by auto
  qed
qed

lemma files_fields:
  "os_exists files_os p w = (p \<in> set w)"
  "os_stat_error files_os p w = None"
  "os_glob files_os p pat w = Inr []"
  "os_read_text files_os p w =
     (if p = [py ''repo'', py ''README.md''] then Inr (replicate 6000 97)
      else if p = [py ''repo'', py ''package.json''] then Inr (py ''{}'')
      else Inl (Exn PermissionError (py ''[Errno 13] Permission denied'')))"
  by (simp_all add: files_os_def example_fields example_exists)

lemma read_three_files:
  "read_key_files files_os three_files [py ''repo'']
     = Inr [(py ''README.md'', replicate 5000 97), (py ''package.json'', py ''{}'')]"
  by (simp add: read_key_files_def read_pattern_def record_file_def common_files_def
        path_exists_def files_fields three_files_def star_def slash_def py_def)

lemma long_link_fields:
  "os_exists long_link_os p w = (p \<in> set w)"
  "os_stat_error long_link_os p w =
     (if p = [py ''repo'', py ''README.md'']
      then Some (Exn OSError (py ''[Errno 36] File name too long'')) else None)"
  by (simp_all add: long_link_os_def example_exists)

text \<open>
  Claim C7, as amended. When \<open>_read_key_files\<close> returns, every value recorded in
  \<open>key_files\<close> is the content of a matched key file that could be read, cut to its first
  5000 characters: of length exactly 5000 when the content is longer, the content itself
  when it is not; and the keys recorded are exactly the keys of the matched files that
  can be read, so a file that cannot be read is passed over. \<open>_read_key_files\<close> returns
  if and only if the search for the matches of every pattern (the tests \<open>exists()\<close> and
  the \<open>glob\<close>, which stand outside the \<open>try\<close> statement) raises nothing, and an exception
  that leaves it is one raised by that search: no failure to read a file propagates.
\<close>

theorem key_files_truncated:
  "(\<forall>key_files. read_key_files os w repo_dir = Inr key_files \<longrightarrow>
      (\<forall>key v. map_of key_files key = Some v \<longrightarrow>
         (\<exists>pattern matches file text. pattern \<in> set common_files
            \<and> pattern_matches os w repo_dir pattern = Inr matches
            \<and> (key, file) \<in> set matches
            \<and> os_read_text os file w = Inr text
            \<and> v = take 5000 text
            \<and> (5000 < length text \<longrightarrow> length v = 5000)
            \<and> (length text \<le> 5000 \<longrightarrow> v = text)))
      \<and> (\<forall>key. key \<in> fst ` set key_files \<longleftrightarrow>
            (\<exists>pattern matches file text. pattern \<in> set common_files
               \<and> pattern_matches os w repo_dir pattern = Inr matches
               \<and> (key, file) \<in> set matches
               \<and> os_read_text os file w = Inr text)))
   \<and> ((\<exists>key_files. read_key_files os w repo_dir = Inr key_files) \<longleftrightarrow>
        (\<forall>pattern\<in>set common_files.
           \<exists>matches. pattern_matches os w repo_dir pattern = Inr matches))
   \<and> (\<forall>e. read_key_files os w repo_dir = Inl e \<longrightarrow>
         (\<exists>pattern\<in>set common_files. pattern_matches os w repo_dir pattern = Inl e))"
proof (intro conjI allI impI)
  fix key_files key v
  assume r: "read_key_files os w repo_dir = Inr key_files"
    and "map_of key_files key = Some v"
  from read_patterns_lookup [OF r [unfolded read_key_files_def] this(2)]
  obtain pattern matches path body where "pattern \<in> set common_files"
    "pattern_matches os w repo_dir pattern = Inr matches"
    "(key, path) \<in> set matches"
    "os_read_text os path w = Inr body" "v = take 5000 body"
    by auto
  then show "\<exists>pattern matches file text. pattern \<in> set common_files
            \<and> pattern_matches os w repo_dir pattern = Inr matches
            \<and> (key, file) \<in> set matches
            \<and> os_read_text os file w = Inr text
            \<and> v = take 5000 text
            \<and> (5000 < length text \<longrightarrow> length v = 5000)
            \<and> (length text \<le> 5000 \<longrightarrow> v = text)"
    by (intro exI [of _ pattern] exI [of _ matches] exI [of _ path] exI [of _ body]) simp
next
  fix key_files key
  assume r: "read_key_files os w repo_dir = Inr key_files"
  show "key \<in> fst ` set key_files \<longleftrightarrow>
            (\<exists>pattern matches file text. pattern \<in> set common_files
               \<and> pattern_matches os w repo_dir pattern = Inr matches
               \<and> (key, file) \<in> set matches
               \<and> os_read_text os file w = Inr text)"
    unfolding read_patterns_keys [OF r [unfolded read_key_files_def]] by auto
next
  show "(\<exists>key_files. read_key_files os w repo_dir = Inr key_files) \<longleftrightarrow>
        (\<forall>pattern\<in>set common_files.
           \<exists>matches. pattern_matches os w repo_dir pattern = Inr matches)"
    unfolding read_key_files_def by (rule read_patterns_returns)
next
  fix e
  assume "read_key_files os w repo_dir = Inl e"
  then show "\<exists>pattern\<in>set common_files. pattern_matches os w repo_dir pattern = Inl e"
    unfolding read_key_files_def by (rule read_patterns_raises)
qed

text \<open>
  The theorem at the repository of three files: the long \<open>README.md\<close> is cut to 5000
  characters, \<open>package.json\<close> is whole, \<open>requirements.txt\<close> is skipped.
\<close>

theorem key_files_truncated_witness:
  "read_key_files files_os three_files [py ''repo'']
     = Inr [(py ''README.md'', replicate 5000 97), (py ''package.json'', py ''{}'')]
   \<and> os_read_text files_os [py ''repo'', py ''README.md''] three_files = Inr (replicate 6000 97)
   \<and> os_read_text files_os [py ''repo'', py ''requirements.txt''] three_files
       = Inl (Exn PermissionError (py ''[Errno 13] Permission denied''))
   \<and> (\<exists>pattern matches file text. pattern \<in> set common_files
         \<and> pattern_matches files_os three_files [py ''repo''] pattern = Inr matches
         \<and> (py ''README.md'', file) \<in> set matches
         \<and> os_read_text files_os file three_files = Inr text
         \<and> replicate 5000 97 = take 5000 text)"
proof -
  have "map_of [(py ''README.md'', replicate 5000 97), (py ''package.json'', py ''{}'')]
          (py ''README.md'') = Some (replicate 5000 97)"
    by simp
  with key_files_truncated [of files_os three_files "[py ''repo'']"] read_three_files
  have "\<exists>pattern matches file text. pattern \<in> set common_files
         \<and> pattern_matches files_os three_files [py ''repo''] pattern = Inr matches
         \<and> (py ''README.md'', file) \<in> set matches
         \<and> os_read_text files_os file three_files = Inr text
         \<and> replicate 5000 97 = take 5000 text"
    by blast
  moreover have "os_read_text files_os [py ''repo'', py ''README.md''] three_files
                   = Inr (replicate 6000 97)"
    "os_read_text files_os [py ''repo'', py ''requirements.txt''] three_files
       = Inl (Exn PermissionError (py ''[Errno 13] Permission denied''))"
    by (simp_all add: files_fields py_eq_iff)
  ultimately show ?thesis using read_three_files by blast
qed

text \<open>
  Claim C7 as stated fails: \<open>README.md\<close> is a symbolic link whose target has a name too
  long for the file system, \<open>file_path.exists()\<close> raises outside the \<open>try\<close> statement, and
  the \<open>OSError\<close> leaves \<open>_read_key_files\<close>. (In \<open>analyze_repository\<close> it becomes the failed
  result of the repository.)
\<close>

theorem exists_error_leaves_read_key_files:
  "path_exists long_link_os [py ''repo'', py ''README.md''] linked_readme
     = Inl (Exn OSError (py ''[Errno 36] File name too long''))
   \<and> read_key_files long_link_os linked_readme [py ''repo'']
     = Inl (Exn OSError (py ''[Errno 36] File name too long''))"
  by (simp add: read_key_files_def read_pattern_def common_files_def path_exists_def
        long_link_fields star_def slash_def py_def)

end
